theory Spec2Isabelle
  imports Complex_Main "HOL-Library.Sublist"
begin

section \<open>Python text helpers\<close>

text \<open>
  Decoded text (Python \<open>str\<close>) is a \<open>string\<close> whose characters are read as code points
  below 256. \<open>isspace\<close> is \<open>str.isspace\<close> on that range, \<open>strip\<close> is \<open>str.strip()\<close>
  and \<open>split\<close> is \<open>str.split()\<close> without arguments: runs of whitespace separate the
  tokens and no empty token is produced.
\<close>

definition isspace :: "char \<Rightarrow> bool" where
  "isspace c \<longleftrightarrow> (of_char c :: nat) \<in> {9, 10, 11, 12, 13, 28, 29, 30, 31, 32, 133, 160}"

definition strip :: "string \<Rightarrow> string" where
  "strip s = rev (dropWhile isspace (rev (dropWhile isspace s)))"

fun split_acc :: "string \<Rightarrow> string \<Rightarrow> string list" where
  "split_acc cur [] = (if cur = [] then [] else [rev cur])"
| "split_acc cur (c # cs) =
     (if isspace c then (if cur = [] then split_acc [] cs else rev cur # split_acc [] cs)
      else split_acc (c # cur) cs)"

definition split :: "string \<Rightarrow> string list" where
  "split s = split_acc [] s"

section \<open>JSON values\<close>

text \<open>
  What \<open>json.loads\<close> returns: \<open>None\<close>, a \<open>bool\<close>, an \<open>int\<close>, a \<open>float\<close>, a
  \<open>str\<close>, a \<open>list\<close> or a \<open>dict\<close>. A dictionary is held as the list of its items;
  \<open>d.get(k, dflt)\<close> is \<open>dict_get\<close>, and \<open>d.get(k)\<close> has the default \<open>None\<close>.
\<close>

datatype json =
    JNull | JBool bool | JInt int | JFloat real | JStr string | JArr "json list"
  | JObj "(string \<times> json) list"

definition dict_get :: "(string \<times> json) list \<Rightarrow> string \<Rightarrow> json \<Rightarrow> json" where
  "dict_get d k dflt = (case map_of d k of None \<Rightarrow> dflt | Some v \<Rightarrow> v)"

text \<open>The truth value of a value, as \<open>or\<close>, \<open>not\<close> and \<open>if\<close> read it.\<close>

fun json_truthy :: "json \<Rightarrow> bool" where
  "json_truthy JNull = False"
| "json_truthy (JBool b) = b"
| "json_truthy (JInt n) = (n \<noteq> 0)"
| "json_truthy (JFloat r) = (r \<noteq> 0)"
| "json_truthy (JStr s) = (s \<noteq> [])"
| "json_truthy (JArr xs) = (xs \<noteq> [])"
| "json_truthy (JObj kvs) = (kvs \<noteq> [])"

definition json_or :: "json \<Rightarrow> json \<Rightarrow> json" where
  "json_or a b = (if json_truthy a then a else b)"

text \<open>An attribute of the window that holds a string or \<open>None\<close>, as a value.\<close>

definition json_of :: "string option \<Rightarrow> json" where
  "json_of v = (case v of None \<Rightarrow> JNull | Some s \<Rightarrow> JStr s)"

section \<open>The chess library capability\<close>

text \<open>
  \<open>chess_board.py\<close> and \<open>main_window.py\<close> use the third-party \<open>chess\<close> package for
  moves and positions. Its operations are taken as parameters, one field for each
  operation the modelled code calls:
  \<^item> \<open>from_uci\<close>: \<open>chess.Move.from_uci\<close>, \<open>None\<close> where it raises \<open>ValueError\<close>;
  \<^item> \<open>uci\<close>: \<open>move.uci()\<close>; \<open>move_bool\<close>: the truth value of a move (\<open>if move:\<close>);
  \<^item> \<open>new_board\<close>: \<open>chess.Board()\<close>; \<open>legal_moves\<close>: \<open>move in board.legal_moves\<close>;
  \<^item> \<open>push\<close>: \<open>board.push(move)\<close>, returning the board after the move;
  \<^item> \<open>turn\<close>: \<open>board.turn == chess.WHITE\<close>; \<open>fullmove_number\<close>; \<open>is_game_over\<close>.
\<close>

record ('m, 'b) chess_lib =
  from_uci :: "string \<Rightarrow> 'm option"
  uci :: "'m \<Rightarrow> string"
  move_bool :: "'m \<Rightarrow> bool"
  new_board :: 'b
  legal_moves :: "'b \<Rightarrow> 'm \<Rightarrow> bool"
  push :: "'b \<Rightarrow> 'm \<Rightarrow> 'b"
  turn :: "'b \<Rightarrow> bool"
  fullmove_number :: "'b \<Rightarrow> nat"
  is_game_over :: "'b \<Rightarrow> bool"

section \<open>ChessBoardWidget (chess\_board.py)\<close>

record ('m, 'b) chess_board_widget =
  board :: 'b
  flipped :: bool
  last_move :: "'m option"
  move_history :: "'m list"
  current_ply :: nat
  is_viewing_live :: bool

text \<open>
  The \<open>for move_str in move_list\<close> loop of \<open>set_position_from_moves\<close>: \<open>hist\<close> is
  \<open>self.move_history\<close>, \<open>tb\<close> is \<open>temp_board\<close>. A token that does not parse raises
  \<open>ValueError\<close> and the \<open>except\<close> branch leaves the loop; a token that parses but is
  not legal on \<open>temp_board\<close> is passed over.
\<close>

fun parse_moves :: "('m, 'b) chess_lib \<Rightarrow> string list \<Rightarrow> 'm list \<Rightarrow> 'b \<Rightarrow> 'm list" where
  "parse_moves L [] hist tb = hist"
| "parse_moves L (move_str # rest) hist tb =
     (case from_uci L move_str of
        None \<Rightarrow> hist
      | Some move \<Rightarrow>
          if legal_moves L tb move
          then parse_moves L rest (hist @ [move]) (push L tb move)
          else parse_moves L rest hist tb)"

text \<open>
  The loop of \<open>_rebuild_board_at_ply\<close> over \<open>enumerate(self.move_history[:ply])\<close>:
  \<open>i\<close> is the index, the pair is \<open>(self.board, self.last_move)\<close>. The test
  \<open>i == ply - 1\<close> is on Python integers, so it is never true for \<open>ply = 0\<close>.
  The closing call of \<open>_update_board\<close> repaints the squares from \<open>self.board\<close> and
  changes no field of the widget; it is left out.
\<close>

fun rebuild_loop ::
  "('m, 'b) chess_lib \<Rightarrow> nat \<Rightarrow> nat \<Rightarrow> 'm list \<Rightarrow> 'b \<times> 'm option \<Rightarrow> 'b \<times> 'm option" where
  "rebuild_loop L ply i [] acc = acc"
| "rebuild_loop L ply i (move # rest) acc =
     rebuild_loop L ply (Suc i) rest
       (push L (fst acc) move, if int i = int ply - 1 then Some move else snd acc)"

definition rebuild_board_at_ply ::
  "('m, 'b) chess_lib \<Rightarrow> nat \<Rightarrow> ('m, 'b) chess_board_widget \<Rightarrow> ('m, 'b) chess_board_widget" where
  "rebuild_board_at_ply L ply w =
     (let r = rebuild_loop L ply 0 (take ply (move_history w)) (new_board L, None)
      in w\<lparr>board := fst r, last_move := snd r\<rparr>)"

definition set_position_from_moves ::
  "('m, 'b) chess_lib \<Rightarrow> string \<Rightarrow> ('m, 'b) chess_board_widget \<Rightarrow> ('m, 'b) chess_board_widget" where
  "set_position_from_moves L moves_uci w =
     (let hist = (if moves_uci \<noteq> [] then parse_moves L (split moves_uci) [] (new_board L) else []);
          w1 = w\<lparr>move_history := hist\<rparr>;
          w2 = (if is_viewing_live w1 then w1\<lparr>current_ply := length (move_history w1)\<rparr> else w1)
      in rebuild_board_at_ply L (current_ply w2) w2)"

definition get_live_board :: "('m, 'b) chess_lib \<Rightarrow> ('m, 'b) chess_board_widget \<Rightarrow> 'b" where
  "get_live_board L w = foldl (push L) (new_board L) (move_history w)"

definition reset :: "('m, 'b) chess_lib \<Rightarrow> ('m, 'b) chess_board_widget \<Rightarrow> ('m, 'b) chess_board_widget" where
  "reset L w = w\<lparr>board := new_board L, last_move := None, move_history := [],
                 current_ply := 0, is_viewing_live := True\<rparr>"

text \<open>The widget as \<open>__init__\<close> leaves it.\<close>

definition init_widget :: "('m, 'b) chess_lib \<Rightarrow> ('m, 'b) chess_board_widget" where
  "init_widget L = \<lparr>board = new_board L, flipped = False, last_move = None,
                    move_history = [], current_ply = 0, is_viewing_live = True\<rparr>"

section \<open>A small executable chess capability\<close>

text \<open>
  The theorems below hold for every value of the \<open>chess_lib\<close> parameters. To run the
  model on concrete move lists, \<open>sample_chess\<close> implements the capability on a
  fragment of chess: UCI move syntax (four or five characters, or \<open>0000\<close>), the
  standard starting position, pawn advances onto empty squares and knight moves. Every
  other move is reported as not legal, and the fragment never reports a finished game.
  Squares are numbered as in the \<open>chess\<close> package: \<open>a1 = 0\<close>, \<open>b1 = 1\<close>, ...,
  \<open>h8 = 63\<close>.
\<close>

datatype colour = White | Black

datatype piece_type = Pawn | Knight | Bishop | Rook | Queen | King

record uci_move =
  from_square :: nat
  to_square :: nat
  promotion :: "piece_type option"

record position =
  pieces :: "(nat \<times> colour \<times> piece_type) list"
  white_to_move :: bool
  fullmoves :: nat

definition square_index :: "char \<Rightarrow> char \<Rightarrow> nat option" where
  "square_index f r =
     (let fi = (of_char f :: nat); ri = (of_char r :: nat)
      in if 97 \<le> fi \<and> fi \<le> 104 \<and> 49 \<le> ri \<and> ri \<le> 56
         then Some ((ri - 49) * 8 + (fi - 97)) else None)"

definition piece_symbol :: "char \<Rightarrow> piece_type option" where
  "piece_symbol c =
     (if c = CHR ''p'' then Some Pawn else if c = CHR ''n'' then Some Knight
      else if c = CHR ''b'' then Some Bishop else if c = CHR ''r'' then Some Rook
      else if c = CHR ''q'' then Some Queen else if c = CHR ''k'' then Some King
      else None)"

definition uci_move_of :: "nat option \<Rightarrow> nat option \<Rightarrow> piece_type option \<Rightarrow> uci_move option" where
  "uci_move_of a b p =
     (case (a, b) of
        (Some x, Some y) \<Rightarrow>
          if x = y then None else Some \<lparr>from_square = x, to_square = y, promotion = p\<rparr>
      | _ \<Rightarrow> None)"

definition sample_from_uci :: "string \<Rightarrow> uci_move option" where
  "sample_from_uci s =
     (if s = ''0000'' then Some \<lparr>from_square = 0, to_square = 0, promotion = None\<rparr>
      else case s of
        [a, b, c, d] \<Rightarrow> uci_move_of (square_index a b) (square_index c d) None
      | [a, b, c, d, e] \<Rightarrow>
          (case piece_symbol e of
             None \<Rightarrow> None
           | Some p \<Rightarrow> uci_move_of (square_index a b) (square_index c d) (Some p))
      | _ \<Rightarrow> None)"

definition square_name :: "nat \<Rightarrow> string" where
  "square_name sq = [char_of (97 + sq mod 8), char_of (49 + sq div 8)]"

definition symbol_of :: "piece_type \<Rightarrow> char" where
  "symbol_of p = (case p of Pawn \<Rightarrow> CHR ''p'' | Knight \<Rightarrow> CHR ''n'' | Bishop \<Rightarrow> CHR ''b''
                  | Rook \<Rightarrow> CHR ''r'' | Queen \<Rightarrow> CHR ''q'' | King \<Rightarrow> CHR ''k'')"

definition sample_move_bool :: "uci_move \<Rightarrow> bool" where
  "sample_move_bool m \<longleftrightarrow> from_square m \<noteq> 0 \<or> to_square m \<noteq> 0 \<or> promotion m \<noteq> None"

definition sample_uci :: "uci_move \<Rightarrow> string" where
  "sample_uci m =
     (if sample_move_bool m
      then square_name (from_square m) @ square_name (to_square m)
           @ (case promotion m of None \<Rightarrow> [] | Some p \<Rightarrow> [symbol_of p])
      else ''0000'')"

definition back_rank :: "piece_type list" where
  "back_rank = [Rook, Knight, Bishop, Queen, King, Bishop, Knight, Rook]"

definition start_position :: position where
  "start_position =
     \<lparr>pieces = map (\<lambda>i. (i, White, back_rank ! i)) [0..<8]
               @ map (\<lambda>i. (8 + i, White, Pawn)) [0..<8]
               @ map (\<lambda>i. (48 + i, Black, Pawn)) [0..<8]
               @ map (\<lambda>i. (56 + i, Black, back_rank ! i)) [0..<8],
      white_to_move = True, fullmoves = 1\<rparr>"

definition piece_at :: "position \<Rightarrow> nat \<Rightarrow> (colour \<times> piece_type) option" where
  "piece_at b sq = map_of (pieces b) sq"

definition side_to_move :: "position \<Rightarrow> colour" where
  "side_to_move b = (if white_to_move b then White else Black)"

definition pawn_advance :: "position \<Rightarrow> nat \<Rightarrow> nat \<Rightarrow> bool" where
  "pawn_advance b x y \<longleftrightarrow>
     (if white_to_move b
      then (y = x + 8 \<and> y < 56 \<and> piece_at b y = None)
           \<or> (x div 8 = 1 \<and> y = x + 16 \<and> piece_at b (x + 8) = None \<and> piece_at b y = None)
      else (x = y + 8 \<and> 8 \<le> y \<and> piece_at b y = None)
           \<or> (x div 8 = 6 \<and> x = y + 16 \<and> piece_at b (y + 8) = None \<and> piece_at b y = None))"

definition knight_jump :: "position \<Rightarrow> nat \<Rightarrow> nat \<Rightarrow> bool" where
  "knight_jump b x y \<longleftrightarrow>
     (let df = (if x mod 8 \<le> y mod 8 then y mod 8 - x mod 8 else x mod 8 - y mod 8);
          dr = (if x div 8 \<le> y div 8 then y div 8 - x div 8 else x div 8 - y div 8)
      in ((df = 1 \<and> dr = 2) \<or> (df = 2 \<and> dr = 1))
         \<and> (case piece_at b y of None \<Rightarrow> True | Some (c, k) \<Rightarrow> c \<noteq> side_to_move b))"

definition sample_legal :: "position \<Rightarrow> uci_move \<Rightarrow> bool" where
  "sample_legal b m \<longleftrightarrow>
     promotion m = None \<and> from_square m < 64 \<and> to_square m < 64 \<and>
     (case piece_at b (from_square m) of
        None \<Rightarrow> False
      | Some (c, k) \<Rightarrow>
          c = side_to_move b \<and>
          (case k of
             Pawn \<Rightarrow> pawn_advance b (from_square m) (to_square m)
           | Knight \<Rightarrow> knight_jump b (from_square m) (to_square m)
           | _ \<Rightarrow> False))"

definition sample_push :: "position \<Rightarrow> uci_move \<Rightarrow> position" where
  "sample_push b m =
     \<lparr>pieces =
        (case piece_at b (from_square m) of
           None \<Rightarrow> pieces b
         | Some p \<Rightarrow>
             (to_square m, p)
             # filter (\<lambda>e. fst e \<noteq> from_square m \<and> fst e \<noteq> to_square m) (pieces b)),
      white_to_move = (\<not> white_to_move b),
      fullmoves = (if white_to_move b then fullmoves b else Suc (fullmoves b))\<rparr>"

definition sample_chess :: "(uci_move, position) chess_lib" where
  "sample_chess =
     \<lparr>from_uci = sample_from_uci, uci = sample_uci, move_bool = sample_move_bool,
      new_board = start_position, legal_moves = sample_legal, push = sample_push,
      turn = white_to_move, fullmove_number = fullmoves, is_game_over = (\<lambda>b. False)\<rparr>"

section \<open>UCIEngine.get\_best\_move (uci\_engine.py)\<close>

text \<open>
  Times are Python floats; they are modelled as real numbers. The search limits are the
  keyword arguments handed to \<open>chess.engine.Limit\<close>.
\<close>

record limit =
  lim_time :: "real option"
  lim_depth :: "nat option"
  lim_nodes :: "nat option"
  lim_white_clock :: "real option"
  lim_black_clock :: "real option"
  lim_white_inc :: "real option"
  lim_black_inc :: "real option"

datatype error =
    RuntimeError | EngineError | ClientError | LichessAPIError nat | AttributeError
  | TimeoutError | IntegrityError | InterfaceError | OverflowError | UnicodeDecodeError
  | JSONDecodeError | ValueError | RecursionError

datatype severity = DEBUG | INFO | WARNING | ERROR

text \<open>
  What a handler does to the outside world, in the order it does it: calls on the
  database (\<open>self.db\<close>), the status bar, Qt signals, timed suspensions, the engine search
  and HTTP requests to the remote service.
\<close>

datatype action =
    DbLog severity string
  | UpdateStatistics string
  | AddGame json json string string string bool
  | UpdateStatus string
  | Signal string
  | Sleep real
  | EnginePlay limit
  | HttpPost string
  | SeekGame
  | StopBot
  | OpenEventStream

definition seconds :: "int option \<Rightarrow> real option" where
  "seconds ms = map_option (\<lambda>v. real_of_int v / 1000) ms"

definition build_limit ::
  "real option \<Rightarrow> nat option \<Rightarrow> nat option \<Rightarrow> int option \<Rightarrow> int option \<Rightarrow> int option
     \<Rightarrow> int option \<Rightarrow> limit" where
  "build_limit time_limit depth nodes wtime btime winc binc =
     (let kwargs = \<lparr>lim_time = time_limit, lim_depth = depth, lim_nodes = nodes,
                     lim_white_clock = seconds wtime, lim_black_clock = seconds btime,
                     lim_white_inc = seconds winc, lim_black_inc = seconds binc\<rparr>
      in if time_limit = None \<and> depth = None \<and> nodes = None \<and> wtime = None \<and> btime = None
            \<and> winc = None \<and> binc = None
         then kwargs\<lparr>lim_time := Some 1\<rparr> else kwargs)"

text \<open>
  \<open>running\<close> is the engine's \<open>is_running\<close> property and \<open>play\<close> what
  \<open>await self.engine.play(board, limit)\<close> gives: an exception, or \<open>result.move\<close>.
\<close>

definition get_best_move ::
  "bool \<Rightarrow> (error + 'm option) \<Rightarrow> real option \<Rightarrow> nat option \<Rightarrow> nat option \<Rightarrow> int option
     \<Rightarrow> int option \<Rightarrow> int option \<Rightarrow> int option \<Rightarrow> action list \<times> (error + 'm option)" where
  "get_best_move running play time_limit depth nodes wtime btime winc binc =
     (if \<not> running then ([], Inl RuntimeError)
      else ([EnginePlay (build_limit time_limit depth nodes wtime btime winc binc)], play))"

section \<open>LichessClient.make\_move (api\_client.py)\<close>

datatype http_response = Response nat "bool option" | ConnectionFailed

definition BASE_URL :: string where
  "BASE_URL = ''https://lichess.org''"

text \<open>An f-string prints \<open>None\<close> as the text \<open>None\<close>.\<close>

definition format_opt :: "string option \<Rightarrow> string" where
  "format_opt v = (case v of None \<Rightarrow> ''None'' | Some s \<Rightarrow> s)"

definition move_url :: "string option \<Rightarrow> string \<Rightarrow> string" where
  "move_url game_id move = BASE_URL @ ''/api/board/game/'' @ format_opt game_id @ ''/move/'' @ move"

text \<open>
  The request is sent first; a status other than 200 raises \<open>LichessAPIError\<close>, otherwise
  the result is \<open>result.get("ok", False)\<close>.
\<close>

definition make_move :: "http_response \<Rightarrow> string option \<Rightarrow> string \<Rightarrow> action list \<times> (error + bool)" where
  "make_move response game_id move =
     ([HttpPost (move_url game_id move)],
      case response of
        ConnectionFailed \<Rightarrow> Inl ClientError
      | Response status ok \<Rightarrow>
          if status \<noteq> 200 then Inl (LichessAPIError status)
          else Inr (case ok of None \<Rightarrow> False | Some v \<Rightarrow> v))"

section \<open>MainWindow (main\_window.py)\<close>

text \<open>
  The fields of the window that the handlers read or write. \<open>engine\<close> and
  \<open>lichess_client\<close> say whether the attribute is set (not \<open>None\<close>); the four think-time
  fields, \<open>single_node\<close>, \<open>rated\<close> and \<open>time_control\<close> are the values of the
  configuration widgets.
\<close>

record ('m, 'b) main_window =
  is_running :: bool
  stop_after_game :: bool
  engine :: bool
  lichess_client :: bool
  current_game_id :: "string option"
  our_color :: "string option"
  game_board :: "'b option"
  chess_board :: "('m, 'b) chess_board_widget"
  white_time_ms :: int
  black_time_ms :: int
  opening_time_min :: real
  opening_time_max :: real
  midgame_time_min :: real
  midgame_time_max :: real
  single_node :: bool
  rated :: bool
  time_control :: "string option"

text \<open>A \<open>gameState\<close> record (or the \<open>state\<close> object of \<open>gameFull\<close>).\<close>

record game_state =
  gs_moves :: "string option"
  gs_status :: "string option"
  gs_wtime :: "int option"
  gs_btime :: "int option"
  gs_winc :: "int option"
  gs_binc :: "int option"

definition get_or :: "'a option \<Rightarrow> 'a \<Rightarrow> 'a" where
  "get_or v d = (case v of None \<Rightarrow> d | Some x \<Rightarrow> x)"

text \<open>The truth value of an optional string: \<open>None\<close> and the empty string are false.\<close>

definition truthy :: "string option \<Rightarrow> bool" where
  "truthy v \<longleftrightarrow> (case v of None \<Rightarrow> False | Some s \<Rightarrow> s \<noteq> [])"

definition clear_game :: "('m, 'b) main_window \<Rightarrow> ('m, 'b) main_window" where
  "clear_game s = s\<lparr>current_game_id := None, our_color := None, game_board := None\<rparr>"

text \<open>
  \<open>db.add_game\<close> (db\_manager.py): one \<open>INSERT OR REPLACE\<close> into \<open>game_history\<close>.
  \<open>sqlite3\<close> binds \<open>None\<close>, \<open>int\<close>, \<open>float\<close> and \<open>str\<close> parameters; a list or a
  dictionary is refused (\<open>InterfaceError\<close>; \<open>ProgrammingError\<close> in later versions of the
  module) and so is an integer outside 64 bits (\<open>OverflowError\<close>). The column
  \<open>game_id\<close> is declared \<open>NOT NULL\<close> without a default, so a \<open>None\<close> game id raises
  \<open>IntegrityError\<close>. When the call raises, no row is written.
\<close>

definition bind_error :: "json \<Rightarrow> error option" where
  "bind_error v =
     (case v of
        JArr xs \<Rightarrow> Some InterfaceError
      | JObj kvs \<Rightarrow> Some InterfaceError
      | JInt n \<Rightarrow> if - (2 ^ 63) \<le> n \<and> n < 2 ^ 63 then None else Some OverflowError
      | _ \<Rightarrow> None)"

definition add_game ::
  "json \<Rightarrow> json \<Rightarrow> string \<Rightarrow> string \<Rightarrow> string \<Rightarrow> bool \<Rightarrow> action list \<times> error option" where
  "add_game game_id opponent color result tc is_rated =
     (case bind_error game_id of
        Some e \<Rightarrow> ([], Some e)
      | None \<Rightarrow>
          (case bind_error opponent of
             Some e \<Rightarrow> ([], Some e)
           | None \<Rightarrow>
               if game_id = JNull then ([], Some IntegrityError)
               else ([AddGame game_id opponent color result tc is_rated], None)))"

text \<open>
  What a handler that can raise leaves behind: the actions done, the window, and the
  exception that left the handler, if one did.
\<close>

record ('m, 'b) outcome =
  trace :: "action list"
  window :: "('m, 'b) main_window"
  raised :: "error option"

text \<open>
  \<open>_on_game_finish\<close>. \<open>game\<close> is the \<open>game\<close> object of the \<open>gameFinish\<close> event, a
  dictionary with any values (\<open>Dict[str, Any]\<close>); \<open>str_of\<close> is Python's \<open>str\<close>, with
  which an f-string prints a value. The calls that only repaint widgets are left out; the
  call of \<open>_seek_game\<close> is the action \<open>SeekGame\<close>, the call of \<open>_on_stop_bot\<close> the
  action \<open>StopBot\<close>. \<open>opponent.get\<close> raises \<open>AttributeError\<close> when the value under
  \<open>opponent\<close> is not a dictionary. An exception leaves the handler where it is raised:
  the statistics are updated by then, the window is not yet cleared.
\<close>

definition on_game_finish ::
  "('m, 'b) chess_lib \<Rightarrow> (json \<Rightarrow> string) \<Rightarrow> (string \<times> json) list \<Rightarrow> ('m, 'b) main_window
     \<Rightarrow> ('m, 'b) outcome" where
  "on_game_finish L str_of game s =
     (let game_id = json_or (dict_get game ''gameId'' JNull) (dict_get game ''id'' JNull);
          status = dict_get game ''status'' (JStr ''unknown'');
          head = [DbLog INFO (''Game finished: '' @ str_of game_id @ '' ('' @ str_of status @ '')''),
                  Signal ''game_finished'']
      in if status \<in> set [JStr ''aborted'', JStr ''noStart'']
         then \<lparr>trace = head @ [UpdateStatus (''Game aborted ('' @ str_of status @ '')'')]
                         @ (if is_running s then [Sleep 2, SeekGame] else []),
               window = (clear_game s)\<lparr>chess_board := reset L (chess_board s)\<rparr>,
               raised = None\<rparr>
         else
           (let winner = dict_get game ''winner'' JNull;
                result = (if winner = json_of (our_color s) then ''win''
                          else if winner \<noteq> JNull then ''loss'' else ''draw'');
                counted = head @ [UpdateStatistics result]
            in case dict_get game ''opponent'' (JObj []) of
                 JObj opponent \<Rightarrow>
                   (let r = add_game game_id (dict_get opponent ''username'' (JStr ''Unknown''))
                              (if truthy (our_color s) then get_or (our_color s) [] else ''unknown'')
                              result (get_or (time_control s) ''unknown'') (rated s)
                    in case snd r of
                         Some e \<Rightarrow> \<lparr>trace = counted, window = s, raised = Some e\<rparr>
                       | None \<Rightarrow>
                           \<lparr>trace = counted @ fst r @ [Signal ''stats_updated'']
                                     @ (if stop_after_game s
                                        then [DbLog INFO ''Stopping bot after game as requested'',
                                              StopBot]
                                        else if is_running s then [Sleep 2, SeekGame] else []),
                            window = clear_game s, raised = None\<rparr>)
               | _ \<Rightarrow> \<lparr>trace = counted, window = s, raised = Some AttributeError\<rparr>))"

definition on_game_aborted ::
  "('m, 'b) chess_lib \<Rightarrow> string \<Rightarrow> ('m, 'b) main_window \<Rightarrow> action list \<times> ('m, 'b) main_window" where
  "on_game_aborted L reason s =
     ([DbLog INFO (''Game aborted: '' @ reason), UpdateStatus (''Game aborted ('' @ reason @ '')'')]
        @ (if is_running s then [Sleep 2, SeekGame] else []),
      (clear_game s)\<lparr>chess_board := reset L (chess_board s)\<rparr>)"

text \<open>
  \<open>_maybe_make_move\<close> suspends twice: while the engine searches and while the throttle
  sleeps. It writes no field of the window; what it reads after a suspension is whatever
  the other tasks left there. \<open>move_env\<close> collects what one invocation receives from
  outside: the clock readings, the sample \<open>random()\<close> drawn by \<open>random.uniform\<close>, the
  engine's answer, the window as it is found when the request is about to be sent
  (\<open>at_submission\<close>), and the remote's answer.
\<close>

record ('m, 'b) move_env =
  think_start_time :: real
  random_sample :: real
  engine_running :: bool
  engine_play :: "error + 'm option"
  engine_done_time :: real
  at_submission :: "('m, 'b) main_window"
  move_response :: http_response

text \<open>\<open>random.uniform(a, b)\<close> is \<open>a + (b - a) * random()\<close>.\<close>

definition uniform :: "real \<Rightarrow> real \<Rightarrow> real \<Rightarrow> real" where
  "uniform r a b = a + (b - a) * r"

definition is_our_turn :: "('m, 'b) chess_lib \<Rightarrow> ('m, 'b) main_window \<Rightarrow> 'b \<Rightarrow> bool" where
  "is_our_turn L s b \<longleftrightarrow>
     (turn L b \<and> our_color s = Some ''white'') \<or> (\<not> turn L b \<and> our_color s = Some ''black'')"

text \<open>The think-time range of the tier of the current move number.\<close>

definition time_min :: "('m, 'b) chess_lib \<Rightarrow> ('m, 'b) main_window \<Rightarrow> 'b \<Rightarrow> real" where
  "time_min L s b = (if fullmove_number L b \<le> 10 then opening_time_min s else midgame_time_min s)"

definition time_max :: "('m, 'b) chess_lib \<Rightarrow> ('m, 'b) main_window \<Rightarrow> 'b \<Rightarrow> real" where
  "time_max L s b = (if fullmove_number L b \<le> 10 then opening_time_max s else midgame_time_max s)"

definition target_move_time ::
  "('m, 'b) chess_lib \<Rightarrow> ('m, 'b) move_env \<Rightarrow> ('m, 'b) main_window \<Rightarrow> 'b \<Rightarrow> real" where
  "target_move_time L E s b = uniform (random_sample E) (time_min L s b) (time_max L s b)"

definition elapsed :: "('m, 'b) move_env \<Rightarrow> real" where
  "elapsed E = engine_done_time E - think_start_time E"

text \<open>
  The part of the \<open>try\<close> block after a move has come back: the throttle and the
  submission. \<open>self.lichess_client\<close> and \<open>self.current_game_id\<close> are read here, after
  the suspensions; a missing client raises \<open>AttributeError\<close>, which the handler's
  \<open>except Exception\<close> logs like every other exception.
\<close>

definition submit_move ::
  "('m, 'b) move_env \<Rightarrow> string \<Rightarrow> real \<Rightarrow> action list" where
  "submit_move E move_uci remaining_wait =
     (if remaining_wait > 0 then [UpdateStatus ''Move ready, waiting'', Sleep remaining_wait] else [])
     @ (if \<not> lichess_client (at_submission E) then [DbLog ERROR ''Error making move'']
        else
          (let r = make_move (move_response E) (current_game_id (at_submission E)) move_uci
           in fst r
              @ (case snd r of
                   Inl e \<Rightarrow> [DbLog ERROR ''Error making move'']
                 | Inr success \<Rightarrow>
                     if success then [UpdateStatus (''Played: '' @ move_uci)]
                     else [DbLog WARNING (''Move may have failed: '' @ move_uci)])))"

definition think_and_move ::
  "('m, 'b) chess_lib \<Rightarrow> ('m, 'b) move_env \<Rightarrow> game_state \<Rightarrow> ('m, 'b) main_window \<Rightarrow> 'b
     \<Rightarrow> action list" where
  "think_and_move L E state s b =
     (let wtime = get_or (gs_wtime state) 60000;
          btime = get_or (gs_btime state) 60000;
          winc = get_or (gs_winc state) 0;
          binc = get_or (gs_binc state) 0;
          nodes_limit = (if single_node s then Some 1 else None);
          r = get_best_move (engine_running E) (engine_play E) (Some (time_max L s b)) None
                nodes_limit (Some wtime) (Some btime) (Some winc) (Some binc)
      in fst r
         @ (case snd r of
              Inl e \<Rightarrow> [DbLog ERROR ''Error making move'']
            | Inr None \<Rightarrow> [DbLog WARNING ''Engine returned no move'']
            | Inr (Some move) \<Rightarrow>
                if move_bool L move
                then DbLog DEBUG (''Engine move: '' @ uci L move)
                     # submit_move E (uci L move) (target_move_time L E s b - elapsed E)
                else [DbLog WARNING ''Engine returned no move'']))"

definition maybe_make_move ::
  "('m, 'b) chess_lib \<Rightarrow> ('m, 'b) move_env \<Rightarrow> game_state \<Rightarrow> ('m, 'b) main_window \<Rightarrow> action list" where
  "maybe_make_move L E state s =
     (case game_board s of
        None \<Rightarrow> []
      | Some b \<Rightarrow>
          if \<not> engine s \<or> \<not> truthy (current_game_id s) then []
          else if is_game_over L b then []
          else if \<not> is_our_turn L s b then [UpdateStatus ''Waiting for opponent...'']
          else UpdateStatus ''Thinking...'' # think_and_move L E state s b)"

text \<open>
  \<open>_on_game_state\<close>. The returned window carries the handler's own writes, all made
  before \<open>_maybe_make_move\<close> is awaited.
\<close>

definition terminal_statuses :: "string list" where
  "terminal_statuses = [''mate'', ''resign'', ''stalemate'', ''timeout'', ''draw'', ''outoftime'',
                        ''cheat'', ''variantEnd'']"

definition update_board ::
  "('m, 'b) chess_lib \<Rightarrow> string \<Rightarrow> ('m, 'b) main_window \<Rightarrow> ('m, 'b) main_window" where
  "update_board L moves s =
     (let cb = set_position_from_moves L moves (chess_board s)
      in s\<lparr>chess_board := cb, game_board := Some (get_live_board L cb)\<rparr>)"

definition on_game_state ::
  "('m, 'b) chess_lib \<Rightarrow> ('m, 'b) move_env \<Rightarrow> game_state \<Rightarrow> ('m, 'b) main_window
     \<Rightarrow> action list \<times> ('m, 'b) main_window" where
  "on_game_state L E event s =
     (let moves = get_or (gs_moves event) [];
          status = get_or (gs_status event) ''started''
      in if status \<in> set [''aborted'', ''noStart''] then on_game_aborted L status s
         else if status \<in> set terminal_statuses
         then ([UpdateStatus (''Game ended: '' @ status)], update_board L moves s)
         else
           (let s1 = s\<lparr>white_time_ms := get_or (gs_wtime event) (white_time_ms s),
                       black_time_ms := get_or (gs_btime event) (black_time_ms s)\<rparr>;
                s2 = update_board L moves s1
            in if status \<notin> set [''started'', ''created'']
               then ([Signal ''game_state_updated''], s2)
               else (Signal ''game_state_updated'' # maybe_make_move L E event s2, s2)))"

text \<open>The game stream hands its \<open>gameState\<close> records to the handler one after the other.\<close>

fun on_game_states ::
  "('m, 'b) chess_lib \<Rightarrow> (('m, 'b) move_env \<times> game_state) list \<Rightarrow> ('m, 'b) main_window
     \<Rightarrow> ('m, 'b) main_window" where
  "on_game_states L [] s = s"
| "on_game_states L (x # rest) s = on_game_states L rest (snd (on_game_state L (fst x) (snd x) s))"

section \<open>The control-stream retry loop (\_run\_event\_stream)\<close>

text \<open>
  One pass of the \<open>while self.is_running\<close> loop connects once. An \<open>attempt\<close> says what
  that connection did: how many events it delivered, how \<open>await stream_events(...)\<close>
  ended, the value of \<open>self.is_running\<close> when it ended and when the loop condition is
  next evaluated, and whether the task was cancelled during the back-off sleep. A list
  of attempts is a finite prefix of the loop's run.
\<close>

datatype stream_end = Returned | Raised | Cancelled

record attempt =
  delivered :: nat
  ending :: stream_end
  running_after :: bool
  running_after_sleep :: bool
  sleep_cancelled :: bool

definition max_reconnect_delay :: real where
  "max_reconnect_delay = 30"

fun event_stream_loop :: "real \<Rightarrow> bool \<Rightarrow> attempt list \<Rightarrow> action list" where
  "event_stream_loop reconnect_delay running [] = []"
| "event_stream_loop reconnect_delay running (a # rest) =
     (if \<not> running then []
      else DbLog DEBUG ''Starting event stream...'' # OpenEventStream #
        (case ending a of
           Cancelled \<Rightarrow> []
         | Returned \<Rightarrow>
             if running_after a
             then DbLog WARNING ''Event stream ended, reconnecting...'' # Sleep reconnect_delay #
                  (if sleep_cancelled a then []
                   else event_stream_loop (min (reconnect_delay * 2) max_reconnect_delay)
                          (running_after_sleep a) rest)
             else event_stream_loop reconnect_delay (running_after a) rest
         | Raised \<Rightarrow>
             if running_after a
             then DbLog ERROR ''Event stream error'' # Sleep reconnect_delay #
                  (if sleep_cancelled a then []
                   else event_stream_loop (min (reconnect_delay * 2) max_reconnect_delay)
                          (running_after_sleep a) rest)
             else []))"

definition run_event_stream :: "bool \<Rightarrow> attempt list \<Rightarrow> action list" where
  "run_event_stream running attempts = event_stream_loop 1 running attempts"

text \<open>The back-off delays slept, in order.\<close>

fun sleeps :: "action list \<Rightarrow> real list" where
  "sleeps [] = []"
| "sleeps (Sleep d # rest) = d # sleeps rest"
| "sleeps (a # rest) = sleeps rest"

section \<open>LichessClient.\_stream\_ndjson (api\_client.py)\<close>

text \<open>
  Raw bytes are characters of the bytes object. The UTF-8 decoder and \<open>json.loads\<close>
  belong to the Python library and are parameters: \<open>decode_utf8\<close> is \<open>None\<close> where
  \<open>line.decode('utf-8')\<close> raises \<open>UnicodeDecodeError\<close>; \<open>json_loads\<close> gives the
  decoded value, or the exception \<open>json.loads\<close> raises: \<open>JSONDecodeError\<close> for a text
  that is not JSON, and otherwise \<open>ValueError\<close> (an integer literal longer than the
  interpreter's digit limit) or \<open>RecursionError\<close> (nesting too deep).
\<close>

type_synonym bytes = "char list"

record 'j codec =
  decode_utf8 :: "bytes \<Rightarrow> string option"
  json_loads :: "string \<Rightarrow> error + 'j"

definition newline :: char where
  "newline = CHR 0x0A"


text \<open>
  The inner loop \<open>while b'\n' in buffer\<close>: \<open>out\<close> collects the records yielded so far.
  The result is the records yielded, the buffer left, and the exception that left the
  loop, if one did. \<open>line.decode\<close> stands before the \<open>try\<close>, and the \<open>try\<close> around
  \<open>json.loads\<close> catches \<open>JSONDecodeError\<close> only; no handler of the generator catches
  \<open>UnicodeDecodeError\<close> or another exception of \<open>json.loads\<close>.
\<close>

function process_buffer ::
  "'j codec \<Rightarrow> bytes \<Rightarrow> 'j list \<Rightarrow> 'j list \<times> bytes \<times> error option" where
  "process_buffer C buffer out =
     (if newline \<in> set buffer
      then
        (let line = takeWhile (\<lambda>c. c \<noteq> newline) buffer;
             buffer' = tl (dropWhile (\<lambda>c. c \<noteq> newline) buffer)
         in case decode_utf8 C line of
              None \<Rightarrow> (out, buffer', Some UnicodeDecodeError)
            | Some text \<Rightarrow>
                if strip text \<noteq> []
                then (case json_loads C (strip text) of
                        Inr data \<Rightarrow> process_buffer C buffer' (out @ [data])
                      | Inl e \<Rightarrow>
                          if e = JSONDecodeError then process_buffer C buffer' out
                          else (out, buffer', Some e))
                else process_buffer C buffer' out)
      else (out, buffer, None))"
  by pat_completeness auto
termination
proof -
  have shrink: "length (tl (dropWhile (\<lambda>c. c \<noteq> newline) b)) < length b"
    if "newline \<in> set b" for b :: bytes
  proof -
    have "dropWhile (\<lambda>c. c \<noteq> newline) b \<noteq> []"
      using that by simp
    moreover have "length (dropWhile (\<lambda>c. c \<noteq> newline) b) \<le> length b"
      by (rule length_dropWhile_le)
    ultimately show ?thesis
      by (cases "dropWhile (\<lambda>c. c \<noteq> newline) b") auto
  qed
  show ?thesis
    by (relation "measure (\<lambda>(C, buffer, out). length buffer)") (auto simp del: length_tl simp: shrink)
qed

declare process_buffer.simps [simp del]

text \<open>
  The outer loop \<open>while not self._stopping\<close>. The stream is described by the reads
  the loop performs: each \<open>read_event\<close> says when
  \<open>await response.content.read(1024)\<close> returned (the value \<open>time.time()\<close> has once
  the chunk is processed) and what it returned. An empty chunk is the end of the stream;
  a socket read timeout after \<open>READ_TIMEOUT\<close> seconds arrives as a client error.
  \<open>stop_at\<close> is the time at which \<open>request_stop\<close> sets \<open>self._stopping\<close>, if it
  does. A list of reads is a finite prefix of the stream: when it is used up the loop is
  suspended in the next read (\<open>AwaitingRead\<close>).
\<close>

datatype read_result = Chunk bytes | ReadClientError | ReadCancelled

record read_event =
  returns_at :: real
  result :: read_result

datatype stream_exit =
    StopObserved | StreamEnded | ClientErrorBreak | CancelledRaised | ExceptionRaised error
  | StatusRaised nat | AwaitingRead

record 'j stream_result =
  yielded :: "'j list"
  left_by :: stream_exit
  left_at :: real

definition stopping :: "real option \<Rightarrow> real \<Rightarrow> bool" where
  "stopping stop_at t = (case stop_at of None \<Rightarrow> False | Some r \<Rightarrow> r \<le> t)"

fun read_loop ::
  "'j codec \<Rightarrow> real option \<Rightarrow> read_event list \<Rightarrow> bytes \<Rightarrow> real \<Rightarrow> real \<Rightarrow> 'j list
     \<Rightarrow> 'j stream_result" where
  "read_loop C stop_at [] buffer last_stop_check now out =
     (if stopping stop_at now then \<lparr>yielded = out, left_by = StopObserved, left_at = now\<rparr>
      else \<lparr>yielded = out, left_by = AwaitingRead, left_at = now\<rparr>)"
| "read_loop C stop_at (e # rest) buffer last_stop_check now out =
     (if stopping stop_at now then \<lparr>yielded = out, left_by = StopObserved, left_at = now\<rparr>
      else
        (case result e of
           ReadClientError \<Rightarrow>
             \<lparr>yielded = out, left_by = ClientErrorBreak, left_at = returns_at e\<rparr>
         | ReadCancelled \<Rightarrow>
             \<lparr>yielded = out, left_by = CancelledRaised, left_at = returns_at e\<rparr>
         | Chunk chunk \<Rightarrow>
             if chunk = []
             then \<lparr>yielded = out, left_by = StreamEnded, left_at = returns_at e\<rparr>
             else
               (let r = process_buffer C (buffer @ chunk) out
                in case snd (snd r) of
                     Some x \<Rightarrow>
                       \<lparr>yielded = fst r, left_by = ExceptionRaised x, left_at = returns_at e\<rparr>
                   | None \<Rightarrow>
                       if returns_at e - last_stop_check > 2
                       then
                         (if stopping stop_at (returns_at e)
                          then \<lparr>yielded = fst r, left_by = StopObserved, left_at = returns_at e\<rparr>
                          else read_loop C stop_at rest (fst (snd r)) (returns_at e)
                                 (returns_at e) (fst r))
                       else read_loop C stop_at rest (fst (snd r)) last_stop_check
                              (returns_at e) (fst r))))"

text \<open>
  \<open>_stream_ndjson\<close>: \<open>status\<close> is the HTTP status of the response and \<open>opened_at\<close>
  the time at which the loop is entered.
\<close>

definition stream_ndjson ::
  "'j codec \<Rightarrow> real option \<Rightarrow> nat \<Rightarrow> real \<Rightarrow> read_event list \<Rightarrow> 'j stream_result" where
  "stream_ndjson C stop_at status opened_at reads =
     (if status \<noteq> 200 then \<lparr>yielded = [], left_by = StatusRaised status, left_at = opened_at\<rparr>
      else read_loop C stop_at reads [] opened_at opened_at [])"


text \<open>
  The stream as a sequence of lines, in the words of the stream format: the complete
  lines of a byte sequence are the runs of bytes that a newline ends; \<open>cur\<close> holds the
  bytes of the line being read, newest first. \<open>record_of\<close> is the record a line stands
  for: none for a keep-alive (a line that is empty once stripped) and none for a line
  that is not JSON. A line is \<open>plain\<close> when it is valid UTF-8 and \<open>json.loads\<close>
  raises nothing but \<open>JSONDecodeError\<close> on it.
\<close>

fun complete_lines :: "bytes \<Rightarrow> bytes \<Rightarrow> bytes list" where
  "complete_lines cur [] = []"
| "complete_lines cur (c # cs) =
     (if c = newline then rev cur # complete_lines [] cs else complete_lines (c # cur) cs)"

fun unfinished_line :: "bytes \<Rightarrow> bytes \<Rightarrow> bytes" where
  "unfinished_line cur [] = rev cur"
| "unfinished_line cur (c # cs) =
     (if c = newline then unfinished_line [] cs else unfinished_line (c # cur) cs)"

definition record_of :: "'j codec \<Rightarrow> bytes \<Rightarrow> 'j option" where
  "record_of C line =
     (case decode_utf8 C line of
        None \<Rightarrow> None
      | Some text \<Rightarrow>
          if strip text = [] then None
          else (case json_loads C (strip text) of Inl e \<Rightarrow> None | Inr data \<Rightarrow> Some data))"

definition plain :: "'j codec \<Rightarrow> bytes \<Rightarrow> bool" where
  "plain C line =
     (case decode_utf8 C line of
        None \<Rightarrow> False
      | Some text \<Rightarrow>
          strip text = []
          \<or> (case json_loads C (strip text) of Inl e \<Rightarrow> e = JSONDecodeError | Inr data \<Rightarrow> True))"

definition chunks_of :: "read_event list \<Rightarrow> bytes list" where
  "chunks_of reads = map (\<lambda>e. case result e of Chunk c \<Rightarrow> c | _ \<Rightarrow> []) reads"

definition is_data :: "read_event \<Rightarrow> bool" where
  "is_data e \<longleftrightarrow> (case result e of Chunk c \<Rightarrow> c \<noteq> [] | _ \<Rightarrow> False)"

text \<open>
  An executable codec for running the model: the ASCII part of UTF-8, and a stand-in
  for \<open>json.loads\<close> that accepts a text enclosed in braces and returns it as it is.
\<close>

definition ascii_decode :: "bytes \<Rightarrow> string option" where
  "ascii_decode bs = (if list_all (\<lambda>c. (of_char c :: nat) < 128) bs then Some bs else None)"

definition braces_loads :: "string \<Rightarrow> error + string" where
  "braces_loads s =
     (if s \<noteq> [] \<and> hd s = CHR ''{'' \<and> last s = CHR ''}'' then Inr s else Inl JSONDecodeError)"

definition sample_codec :: "string codec" where
  "sample_codec = \<lparr>decode_utf8 = ascii_decode, json_loads = braces_loads\<rparr>"

section \<open>MainWindow.\_stop\_bot\_async and the stream tasks\<close>

text \<open>
  A request to the remote service that is awaited under \<open>asyncio.wait_for\<close>: how long
  the remote takes, and what the call gives then, the boolean it returns (\<open>False\<close> for a
  status other than 200) or an exception. \<open>wait_for\<close> gives the time spent waiting and
  the result; when the call takes longer than the timeout it is abandoned after the
  timeout, with \<open>TimeoutError\<close>.
\<close>

datatype call_outcome = Answered bool | CallRaised

record remote_call =
  took :: real
  outcome :: call_outcome







section \<open>A window in a running game\<close>

text \<open>
  The window as a bot run with default settings has it after \<open>gameStart\<close> and the first
  \<open>gameFull\<close> of game \<open>abc\<close>, playing White from the starting position.
\<close>

definition sample_window :: "(uci_move, position) main_window" where
  "sample_window =
     \<lparr>is_running = True, stop_after_game = False, engine = True, lichess_client = True,
      current_game_id = Some ''abc'', our_color = Some ''white'',
      game_board = Some start_position, chess_board = init_widget sample_chess,
      white_time_ms = 600000, black_time_ms = 600000,
      opening_time_min = 1, opening_time_max = 3, midgame_time_min = 3, midgame_time_max = 8,
      single_node = False, rated = False, time_control = Some ''10+0''\<rparr>"

section \<open>Notions the statements use\<close>

text \<open>
  The move history in the words of the specification: the tokens are tried in order on
  the position reached so far. A token that is no UCI move ends the processing; a token
  whose move is not legal on that position is skipped; a legal move is accepted and
  played.
\<close>

fun accepted_moves :: "('m, 'b) chess_lib \<Rightarrow> 'b \<Rightarrow> string list \<Rightarrow> 'm list" where
  "accepted_moves L b [] = []"
| "accepted_moves L b (t # ts) =
     (case from_uci L t of
        None \<Rightarrow> []
      | Some m \<Rightarrow>
          if legal_moves L b m then m # accepted_moves L (push L b m) ts
          else accepted_moves L b ts)"

text \<open>The position after playing a list of moves from a given one.\<close>

definition replay :: "('m, 'b) chess_lib \<Rightarrow> 'b \<Rightarrow> 'm list \<Rightarrow> 'b" where
  "replay L b ms = foldl (push L) b ms"

text \<open>Every move of the list is legal on the position the moves before it lead to.\<close>

fun legal_chain :: "('m, 'b) chess_lib \<Rightarrow> 'b \<Rightarrow> 'm list \<Rightarrow> bool" where
  "legal_chain L b [] = True"
| "legal_chain L b (m # ms) = (legal_moves L b m \<and> legal_chain L (push L b m) ms)"

definition parses :: "('m, 'b) chess_lib \<Rightarrow> string \<Rightarrow> bool" where
  "parses L t \<longleftrightarrow> from_uci L t \<noteq> None"



section \<open>Concrete runs\<close>

text \<open>
  Inputs for running the handlers: a \<open>gameState\<close> record with the given move list and
  status and ten minutes on both clocks; an invocation of the move scheduler in which
  the engine answers \<open>e2e4\<close> after one second, the sample drawn is one half and the
  remote accepts the move; the \<open>gameFinish\<close> event of game \<open>abc\<close>, lost on time.
  \<open>sample_str\<close> stands for Python's \<open>str\<close> when the handlers are run: it is \<open>str\<close>
  on strings, \<open>None\<close> and booleans, and prints a question mark for any other value.
\<close>

definition sample_str :: "json \<Rightarrow> string" where
  "sample_str v =
     (case v of
        JStr t \<Rightarrow> t
      | JNull \<Rightarrow> ''None''
      | JBool b \<Rightarrow> if b then ''True'' else ''False''
      | _ \<Rightarrow> ''?'')"

definition game_state_record :: "string \<Rightarrow> string \<Rightarrow> game_state" where
  "game_state_record moves status =
     \<lparr>gs_moves = Some moves, gs_status = Some status, gs_wtime = Some 600000,
      gs_btime = Some 600000, gs_winc = Some 0, gs_binc = Some 0\<rparr>"

definition sample_env :: "(uci_move, position) move_env" where
  "sample_env =
     \<lparr>think_start_time = 0, random_sample = 1 / 2, engine_running = True,
      engine_play = Inr (sample_from_uci ''e2e4''), engine_done_time = 1,
      at_submission = sample_window, move_response = Response 200 (Some True)\<rparr>"

definition finish_info :: "(string \<times> json) list" where
  "finish_info =
     [(''gameId'', JStr ''abc''), (''status'', JStr ''outoftime''), (''winner'', JStr ''black''),
      (''opponent'', JObj [(''username'', JStr ''opponent'')])]"

text \<open>
  The same invocation when the control stream delivers that \<open>gameFinish\<close> while the
  engine is searching: \<open>_on_game_finish\<close> runs during the suspension, and the remote
  answers the request for a game that does not exist with status 404.
\<close>

definition stale_env :: "(uci_move, position) move_env" where
  "stale_env =
     sample_env\<lparr>at_submission :=
                  window (on_game_finish sample_chess sample_str finish_info sample_window),
                move_response := Response 404 None\<rparr>"

text \<open>The window after the record with the moves \<open>e2e4 e7e5\<close> has been handled.\<close>

definition two_moves_window :: "(uci_move, position) main_window" where
  "two_moves_window =
     snd (on_game_state sample_chess sample_env (game_state_record ''e2e4 e7e5'' ''started'')
            sample_window)"

section \<open>Reading a trace of actions\<close>

text \<open>
  The results of the calls of \<open>db.update_statistics\<close>, the game ids of the calls of
  \<open>db.add_game\<close>, the limits of the engine searches and the addresses of the HTTP
  requests, each in the order of the trace.
\<close>

fun statistics_updates :: "action list \<Rightarrow> string list" where
  "statistics_updates [] = []"
| "statistics_updates (UpdateStatistics r # rest) = r # statistics_updates rest"
| "statistics_updates (a # rest) = statistics_updates rest"

fun history_records :: "action list \<Rightarrow> json list" where
  "history_records [] = []"
| "history_records (AddGame g opp col res tc rt # rest) = g # history_records rest"
| "history_records (a # rest) = history_records rest"

fun engine_limits :: "action list \<Rightarrow> limit list" where
  "engine_limits [] = []"
| "engine_limits (EnginePlay l # rest) = l # engine_limits rest"
| "engine_limits (a # rest) = engine_limits rest"

fun posts :: "action list \<Rightarrow> string list" where
  "posts [] = []"
| "posts (HttpPost u # rest) = u # posts rest"
| "posts (a # rest) = posts rest"

definition is_post :: "action \<Rightarrow> bool" where
  "is_post a = (case a of HttpPost u \<Rightarrow> True | _ \<Rightarrow> False)"

definition is_engine_play :: "action \<Rightarrow> bool" where
  "is_engine_play a = (case a of EnginePlay l \<Rightarrow> True | _ \<Rightarrow> False)"

text \<open>
  The time the handler asks to be suspended between the engine's answer and the
  submission: the sleeps that stand in the trace after the engine search and before the
  request.
\<close>

definition throttle :: "action list \<Rightarrow> real" where
  "throttle acts =
     sum_list (sleeps (takeWhile (\<lambda>a. \<not> is_post a) (dropWhile (\<lambda>a. \<not> is_engine_play a) acts)))"

text \<open>
  An attempt after which the retry loop goes round again: the connection ended or
  failed, the bot is still running and the back-off sleep was not cancelled. It is a
  failure with no successful connection when it delivered no event.
\<close>

definition retries :: "attempt \<Rightarrow> bool" where
  "retries a \<longleftrightarrow>
     ending a \<noteq> Cancelled \<and> running_after a \<and> running_after_sleep a \<and> \<not> sleep_cancelled a"

definition failure :: "attempt \<Rightarrow> bool" where
  "failure a \<longleftrightarrow> retries a \<and> delivered a = 0"

definition failed_attempt :: attempt where
  "failed_attempt =
     \<lparr>delivered = 0, ending = Raised, running_after = True, running_after_sleep = True,
      sleep_cancelled = False\<rparr>"

text \<open>A connection that delivered three events before the remote closed it.\<close>

definition served_attempt :: attempt where
  "served_attempt =
     \<lparr>delivered = 3, ending = Returned, running_after = True, running_after_sleep = True,
      sleep_cancelled = False\<rparr>"

text \<open>
  \<open>gameFinish\<close> events for running \<open>_on_game_finish\<close>: an aborted game with the status
  as a string; an aborted game with the status as an object that carries the status name
  (the form the handler of the \<open>game_finished\<close> signal expects, which reads
  \<open>game.get("status", {})\<close>); a game lost on time whose event carries no game id; and a
  game lost on time whose event has \<open>null\<close> for the opponent.
\<close>

definition abort_info :: "(string \<times> json) list" where
  "abort_info =
     [(''gameId'', JStr ''abc''), (''status'', JStr ''aborted''),
      (''opponent'', JObj [(''username'', JStr ''opponent'')])]"

definition aborted_event :: "(string \<times> json) list" where
  "aborted_event =
     [(''gameId'', JStr ''abc''),
      (''status'', JObj [(''id'', JInt 25), (''name'', JStr ''aborted'')]),
      (''opponent'', JObj [(''username'', JStr ''opponent'')])]"

definition nameless_event :: "(string \<times> json) list" where
  "nameless_event =
     [(''status'', JStr ''outoftime''), (''winner'', JStr ''black''),
      (''opponent'', JObj [(''username'', JStr ''opponent'')])]"

definition orphan_event :: "(string \<times> json) list" where
  "orphan_event =
     [(''gameId'', JStr ''abc''), (''status'', JStr ''outoftime''), (''winner'', JStr ''black''),
      (''opponent'', JNull)]"

text \<open>
  The scheduler in the middle game: the window of the sample game when the board shows
  move 11, and an invocation that starts at second 10 and gets the engine's answer at
  second 12.
\<close>

definition midgame_window :: "(uci_move, position) main_window" where
  "midgame_window = sample_window\<lparr>game_board := Some (start_position\<lparr>fullmoves := 11\<rparr>)\<rparr>"

definition midgame_env :: "(uci_move, position) move_env" where
  "midgame_env = sample_env\<lparr>think_start_time := 10, engine_done_time := 12\<rparr>"

text \<open>
  The session is live and it is our side to move, as the window shows it: a board, an
  engine and a game id are present, the game on the board is not over, and the side
  to move on the board is our colour.
\<close>

definition ready :: "('m, 'b) chess_lib \<Rightarrow> ('m, 'b) main_window \<Rightarrow> bool" where
  "ready L s =
     (case game_board s of
        None \<Rightarrow> False
      | Some b \<Rightarrow>
          engine s \<and> truthy (current_game_id s) \<and> \<not> is_game_over L b \<and> is_our_turn L s b)"

text \<open>
  Streams for running the read loop. \<open>sample_reads\<close>: two chunks that cut a record in
  two, with a keep-alive line and a line that is not JSON among three records, then the
  end of the stream. \<open>garbled_reads\<close>: one chunk with the record \<open>{a}\<close>, a line that
  consists of the byte \<open>0xFF\<close> (which is not UTF-8) and the record \<open>{b}\<close>, then the
  end of the stream; \<open>clean_reads\<close> is the same stream without the garbled line.
  \<open>quiet_reads\<close>: nothing arrives for 30 seconds, then a keep-alive line.
\<close>

definition sample_reads :: "read_event list" where
  "sample_reads =
     [\<lparr>returns_at = 1, result = Chunk (''{a}'' @ [newline, newline] @ ''{b'')\<rparr>,
      \<lparr>returns_at = 2, result = Chunk (''}'' @ [newline] @ ''xx'' @ [newline] @ ''{c}'' @ [newline])\<rparr>,
      \<lparr>returns_at = 3, result = Chunk []\<rparr>]"


definition garbled_reads :: "read_event list" where
  "garbled_reads =
     [\<lparr>returns_at = 1,
       result = Chunk (''{a}'' @ [newline, CHR 0xFF, newline] @ ''{b}'' @ [newline])\<rparr>,
      \<lparr>returns_at = 2, result = Chunk []\<rparr>]"

definition clean_reads :: "read_event list" where
  "clean_reads =
     [\<lparr>returns_at = 1, result = Chunk (''{a}'' @ [newline] @ ''{b}'' @ [newline])\<rparr>,
      \<lparr>returns_at = 2, result = Chunk []\<rparr>]"



section \<open>Replaying move lists\<close>

lemma split_Nil: "split [] = []"
  by (simp add: split_def)

lemma parse_moves_accepted: "parse_moves L ts hist tb = hist @ accepted_moves L tb ts"
  by (induction ts arbitrary: hist tb) (auto split: option.splits)


lemma move_history_set_position:
  "move_history (set_position_from_moves L moves_uci w) =
     accepted_moves L (new_board L) (split moves_uci)"
  by (simp add: set_position_from_moves_def rebuild_board_at_ply_def Let_def
      parse_moves_accepted split_Nil)




lemma accepted_stop:
  "from_uci L t = None \<Longrightarrow> accepted_moves L b (pre @ t # post) = accepted_moves L b pre"
  by (induction pre arbitrary: b) (auto split: option.splits)

lemma accepted_append:
  "list_all (parses L) pre \<Longrightarrow>
   accepted_moves L b (pre @ post) =
     accepted_moves L b pre @ accepted_moves L (replay L b (accepted_moves L b pre)) post"
  by (induction pre arbitrary: b) (auto simp: parses_def replay_def split: option.splits)

lemma accepted_legal_chain: "legal_chain L b (accepted_moves L b ts)"
  by (induction ts arbitrary: b) (auto split: option.splits)

lemma parse_moves_from_empty: "parse_moves L ts [] b = accepted_moves L b ts"
  by (simp add: parse_moves_accepted)

text \<open>
  C10. \<open>set_position_from_moves\<close> returns a widget for every input string (the only
  exception its loop body raises, the \<open>ValueError\<close> of a token that is no UCI move, is
  caught), and the move history it leaves is the list of accepted moves in order: it is
  what the claim's reading of the token list gives, and every move in it is legal on the
  position built by the moves before it. For the loop itself, started with an empty
  history on any position: a token that does not parse ends the processing, so the
  tokens after it do not count; a token that parses to a move that is not legal on the
  position built so far is skipped and the later tokens are still tried; a token that
  parses to a legal move is appended.
\<close>

theorem set_position_from_moves_accepts:
  "move_history (set_position_from_moves L moves_uci w) =
     accepted_moves L (new_board L) (split moves_uci)
   \<and> legal_chain L (new_board L) (move_history (set_position_from_moves L moves_uci w))
   \<and> (from_uci L t1 = None \<longrightarrow>
        parse_moves L (pre1 @ t1 # post1) [] b1 = parse_moves L pre1 [] b1)
   \<and> (list_all (parses L) pre2 \<and> from_uci L t2 = Some m2
        \<and> \<not> legal_moves L (replay L b2 (parse_moves L pre2 [] b2)) m2 \<longrightarrow>
        parse_moves L (pre2 @ t2 # post2) [] b2 = parse_moves L (pre2 @ post2) [] b2)
   \<and> (list_all (parses L) pre3 \<and> from_uci L t3 = Some m3
        \<and> legal_moves L (replay L b3 (parse_moves L pre3 [] b3)) m3 \<longrightarrow>
        parse_moves L (pre3 @ [t3]) [] b3 = parse_moves L pre3 [] b3 @ [m3])"
proof (intro conjI impI)
  show "move_history (set_position_from_moves L moves_uci w) =
          accepted_moves L (new_board L) (split moves_uci)"
    by (rule move_history_set_position)
  show "legal_chain L (new_board L) (move_history (set_position_from_moves L moves_uci w))"
    by (simp add: move_history_set_position accepted_legal_chain)
  show "parse_moves L (pre1 @ t1 # post1) [] b1 = parse_moves L pre1 [] b1"
    if "from_uci L t1 = None"
    using that by (simp add: parse_moves_from_empty accepted_stop)
  show "parse_moves L (pre2 @ t2 # post2) [] b2 = parse_moves L (pre2 @ post2) [] b2"
    if "list_all (parses L) pre2 \<and> from_uci L t2 = Some m2
        \<and> \<not> legal_moves L (replay L b2 (parse_moves L pre2 [] b2)) m2"
    using that by (simp add: parse_moves_from_empty accepted_append)
  show "parse_moves L (pre3 @ [t3]) [] b3 = parse_moves L pre3 [] b3 @ [m3]"
    if "list_all (parses L) pre3 \<and> from_uci L t3 = Some m3
        \<and> legal_moves L (replay L b3 (parse_moves L pre3 [] b3)) m3"
    using that by (simp add: parse_moves_from_empty accepted_append)
qed

text \<open>
  The theorem on the string \<open>e2e4 e2e4 e7e5 zz g1f3\<close>: the second token parses but is not
  legal after \<open>e2e4\<close> and is skipped, \<open>e7e5\<close> is still tried and accepted, \<open>zz\<close> does not
  parse and ends the processing, so \<open>g1f3\<close> is never tried.
\<close>

theorem set_position_from_moves_accepts_witness:
  "map sample_uci (move_history (set_position_from_moves sample_chess ''e2e4 e2e4 e7e5 zz g1f3''
       (init_widget sample_chess))) = [''e2e4'', ''e7e5'']
   \<and> from_uci sample_chess ''zz'' = None
   \<and> parse_moves sample_chess ([''e2e4'', ''e2e4'', ''e7e5''] @ ''zz'' # [''g1f3'']) [] start_position
       = parse_moves sample_chess [''e2e4'', ''e2e4'', ''e7e5''] [] start_position
   \<and> list_all (parses sample_chess) [''e2e4'']
   \<and> from_uci sample_chess ''e2e4'' = Some \<lparr>from_square = 12, to_square = 28, promotion = None\<rparr>
   \<and> \<not> legal_moves sample_chess
         (replay sample_chess start_position (parse_moves sample_chess [''e2e4''] [] start_position))
         \<lparr>from_square = 12, to_square = 28, promotion = None\<rparr>
   \<and> parse_moves sample_chess ([''e2e4''] @ ''e2e4'' # [''e7e5'']) [] start_position
       = parse_moves sample_chess ([''e2e4''] @ [''e7e5'']) [] start_position
   \<and> from_uci sample_chess ''e7e5'' = Some \<lparr>from_square = 52, to_square = 36, promotion = None\<rparr>
   \<and> legal_moves sample_chess
         (replay sample_chess start_position (parse_moves sample_chess [''e2e4''] [] start_position))
         \<lparr>from_square = 52, to_square = 36, promotion = None\<rparr>
   \<and> parse_moves sample_chess ([''e2e4''] @ [''e7e5'']) [] start_position
       = parse_moves sample_chess [''e2e4''] [] start_position
         @ [\<lparr>from_square = 52, to_square = 36, promotion = None\<rparr>]"
proof -
  have run: "map sample_uci (move_history (set_position_from_moves sample_chess
      ''e2e4 e2e4 e7e5 zz g1f3'' (init_widget sample_chess))) = [''e2e4'', ''e7e5'']"
    by code_simp
  have h1: "from_uci sample_chess ''zz'' = None"
    by code_simp
  have h2: "list_all (parses sample_chess) [''e2e4'']"
    by code_simp
  have h3: "from_uci sample_chess ''e2e4'' = Some \<lparr>from_square = 12, to_square = 28, promotion = None\<rparr>"
    by code_simp
  have h4: "\<not> legal_moves sample_chess
         (replay sample_chess start_position (parse_moves sample_chess [''e2e4''] [] start_position))
         \<lparr>from_square = 12, to_square = 28, promotion = None\<rparr>"
    by code_simp
  have h5: "from_uci sample_chess ''e7e5'' = Some \<lparr>from_square = 52, to_square = 36, promotion = None\<rparr>"
    by code_simp
  have h6: "legal_moves sample_chess
         (replay sample_chess start_position (parse_moves sample_chess [''e2e4''] [] start_position))
         \<lparr>from_square = 52, to_square = 36, promotion = None\<rparr>"
    by code_simp
  note inst = set_position_from_moves_accepts
    [of sample_chess "''e2e4 e2e4 e7e5 zz g1f3''" "init_widget sample_chess"
        "''zz''" "[''e2e4'', ''e2e4'', ''e7e5'']" "[''g1f3'']" start_position
        "[''e2e4'']" "''e2e4''" "\<lparr>from_square = 12, to_square = 28, promotion = None\<rparr>"
        start_position "[''e7e5'']"
        "[''e2e4'']" "''e7e5''" "\<lparr>from_square = 52, to_square = 36, promotion = None\<rparr>"
        start_position]
  from inst run h1 h2 h3 h4 h5 h6 show ?thesis
    by blast
qed

lemma get_live_board_set_position:
  "get_live_board L (set_position_from_moves L m w) =
     replay L (new_board L) (accepted_moves L (new_board L) (split m))"
  by (simp add: get_live_board_def replay_def move_history_set_position)



section \<open>The gameState handler\<close>

lemma snd_on_game_state:
  assumes "get_or (gs_status event) ''started'' \<notin> set [''aborted'', ''noStart'']"
  shows "chess_board (snd (on_game_state L E event s)) =
           set_position_from_moves L (get_or (gs_moves event) []) (chess_board s)
    \<and> game_board (snd (on_game_state L E event s)) =
           Some (get_live_board L (set_position_from_moves L (get_or (gs_moves event) [])
             (chess_board s)))"
  using assms by (simp add: on_game_state_def update_board_def Let_def)

text \<open>
  C2, as the code has it. A \<open>gameState\<close> record whose status is not \<open>aborted\<close> or
  \<open>noStart\<close> is never rejected: whatever the history was before, and whether or not the
  record's move list extends it, the handler returns and leaves as the session's move
  history the moves accepted from the record's own list, and as the game board the
  initial position with those moves replayed. The history after the update does not
  depend on the window the record arrived at.
\<close>

theorem on_game_state_replaces_history:
  assumes "get_or (gs_status event) ''started'' \<notin> set [''aborted'', ''noStart'']"
  shows "move_history (chess_board (snd (on_game_state L E event s))) =
           accepted_moves L (new_board L) (split (get_or (gs_moves event) []))
    \<and> game_board (snd (on_game_state L E event s)) =
           Some (replay L (new_board L)
             (accepted_moves L (new_board L) (split (get_or (gs_moves event) []))))
    \<and> move_history (chess_board (snd (on_game_state L E event s))) =
           move_history (chess_board (snd (on_game_state L E' event s')))"
  using snd_on_game_state [OF assms, of L E s] snd_on_game_state [OF assms, of L E' s']
  by (simp add: move_history_set_position get_live_board_set_position)

text \<open>
  The theorem on the record \<open>d2d4\<close> arriving after \<open>e2e4 e7e5\<close> was accepted: the
  history becomes the single move \<open>d2d4\<close>.
\<close>

theorem on_game_state_replaces_history_witness:
  "get_or (gs_status (game_state_record ''d2d4'' ''started'')) ''started''
     \<notin> set [''aborted'', ''noStart'']
   \<and> move_history (chess_board (snd (on_game_state sample_chess sample_env
        (game_state_record ''d2d4'' ''started'') two_moves_window)))
       = accepted_moves sample_chess (new_board sample_chess)
           (split (get_or (gs_moves (game_state_record ''d2d4'' ''started'')) []))
   \<and> map sample_uci (accepted_moves sample_chess (new_board sample_chess)
        (split (get_or (gs_moves (game_state_record ''d2d4'' ''started'')) []))) = [''d2d4'']"
proof -
  have h: "get_or (gs_status (game_state_record ''d2d4'' ''started'')) ''started''
     \<notin> set [''aborted'', ''noStart'']"
    by code_simp
  have run: "map sample_uci (accepted_moves sample_chess (new_board sample_chess)
        (split (get_or (gs_moves (game_state_record ''d2d4'' ''started'')) []))) = [''d2d4'']"
    by code_simp
  from on_game_state_replaces_history [OF h, of sample_chess sample_env two_moves_window] h run
  show ?thesis
    by blast
qed

text \<open>
  C2, as the claim states it, fails. After the list \<open>e2e4 e7e5\<close> has been accepted, a
  record with the list \<open>d2d4\<close>, which does not extend it, is not rejected: the history
  of two moves is replaced by a history of one move, and the handler's actions are the
  update signal and the status line only, with no log entry.
\<close>

theorem on_game_state_rejects_counterexample:
  "\<not> prefix (split ''e2e4 e7e5'') (split ''d2d4'')
   \<and> map sample_uci (move_history (chess_board two_moves_window)) = [''e2e4'', ''e7e5'']
   \<and> map sample_uci (move_history (chess_board (snd (on_game_state sample_chess sample_env
        (game_state_record ''d2d4'' ''started'') two_moves_window)))) = [''d2d4'']
   \<and> fst (on_game_state sample_chess sample_env (game_state_record ''d2d4'' ''started'')
        two_moves_window)
       = [Signal ''game_state_updated'', UpdateStatus ''Waiting for opponent...'']"
  by code_simp

section \<open>The gameFinish handler\<close>

text \<open>
  What the handler does on the events that its branches expect. When the status is the
  string \<open>aborted\<close> or \<open>noStart\<close> nothing is counted and nothing raises. On every other
  status value the statistics are updated exactly once. The history record is made,
  exactly once and for the game of the event, when the opponent is an object (or
  absent) and the game id and the opponent's name are values the database accepts.
\<close>

lemma on_game_finish_aborted:
  assumes "dict_get game ''status'' (JStr ''unknown'') \<in> set [JStr ''aborted'', JStr ''noStart'']"
  shows "statistics_updates (trace (on_game_finish L str_of game s)) = []
    \<and> history_records (trace (on_game_finish L str_of game s)) = []
    \<and> raised (on_game_finish L str_of game s) = None"
proof -
  have "on_game_finish L str_of game s =
      \<lparr>trace = [DbLog INFO (''Game finished: ''
                   @ str_of (json_or (dict_get game ''gameId'' JNull) (dict_get game ''id'' JNull))
                   @ '' ('' @ str_of (dict_get game ''status'' (JStr ''unknown'')) @ '')''),
                 Signal ''game_finished'',
                 UpdateStatus (''Game aborted ('' @ str_of (dict_get game ''status'' (JStr ''unknown''))
                   @ '')'')]
                @ (if is_running s then [Sleep 2, SeekGame] else []),
       window = (clear_game s)\<lparr>chess_board := reset L (chess_board s)\<rparr>,
       raised = None\<rparr>"
    unfolding on_game_finish_def Let_def using assms by (simp only: if_True append.simps)
  then show ?thesis
    by simp
qed

lemma statistics_updates_append:
  "statistics_updates (xs @ ys) = statistics_updates xs @ statistics_updates ys"
  by (induction xs rule: statistics_updates.induct) simp_all

lemma history_records_append:
  "history_records (xs @ ys) = history_records xs @ history_records ys"
  by (induction xs rule: history_records.induct) simp_all

lemma add_game_trace:
  "snd (add_game g opp c r tc rt) = None \<Longrightarrow> fst (add_game g opp c r tc rt) = [AddGame g opp c r tc rt]"
  by (simp add: add_game_def split: option.splits if_splits)

lemma on_game_finish_counted:
  assumes "dict_get game ''status'' (JStr ''unknown'') \<notin> set [JStr ''aborted'', JStr ''noStart'']"
  shows "\<exists>result. result \<in> set [''win'', ''loss'', ''draw'']
    \<and> statistics_updates (trace (on_game_finish L str_of game s)) = [result]"
proof -
  define result where "result =
    (if dict_get game ''winner'' JNull = json_of (our_color s) then ''win''
     else if dict_get game ''winner'' JNull \<noteq> JNull then ''loss'' else ''draw'')"
  have "statistics_updates (trace (on_game_finish L str_of game s)) = [result]"
    unfolding on_game_finish_def Let_def result_def [symmetric] using assms
    by (simp add: statistics_updates_append add_game_trace split: json.split option.split)
  moreover have "result \<in> set [''win'', ''loss'', ''draw'']"
    by (simp add: result_def)
  ultimately show ?thesis
    by blast
qed

lemma on_game_finish_recorded:
  assumes "dict_get game ''status'' (JStr ''unknown'') \<notin> set [JStr ''aborted'', JStr ''noStart'']"
    and "dict_get game ''opponent'' (JObj []) = JObj opponent"
    and "json_or (dict_get game ''gameId'' JNull) (dict_get game ''id'' JNull) = game_id"
    and "game_id \<noteq> JNull" and "bind_error game_id = None"
    and "bind_error (dict_get opponent ''username'' (JStr ''Unknown'')) = None"
  shows "history_records (trace (on_game_finish L str_of game s)) = [game_id]
    \<and> raised (on_game_finish L str_of game s) = None"
proof -
  have ok: "add_game game_id (dict_get opponent ''username'' (JStr ''Unknown'')) c r tc rt
      = ([AddGame game_id (dict_get opponent ''username'' (JStr ''Unknown'')) c r tc rt], None)"
    for c r tc rt
    using assms(4,5,6) by (simp add: add_game_def)
  show ?thesis
    unfolding on_game_finish_def Let_def using assms(1)
    by (simp add: assms(2,3) ok history_records_append)
qed

text \<open>
  C7 on the code. The test for an aborted game compares the status with the strings
  \<open>aborted\<close> and \<open>noStart\<close>. On the event of an aborted game whose status is the
  object \<open>{"id": 25, "name": "aborted"}\<close> the test fails, and the aborted game is
  counted: one statistics update (a draw; a win when the game stream has reported the
  abort before and \<open>_on_game_aborted\<close> has cleared the colour) and one history record.
  The same event with the status as a string is not counted. On the event of a finished
  game that carries no game id the statistics are updated and \<open>add_game\<close> then raises
  \<open>IntegrityError\<close>, so that no history record is made; when the opponent is \<open>null\<close>
  the handler raises \<open>AttributeError\<close> after the statistics update, before \<open>add_game\<close>
  is called.
\<close>

theorem on_game_finish_counts_aborted_game:
  "dict_get aborted_event ''status'' (JStr ''unknown'')
     = JObj [(''id'', JInt 25), (''name'', JStr ''aborted'')]
   \<and> statistics_updates
       (trace (on_game_finish sample_chess sample_str aborted_event sample_window)) = [''draw'']
   \<and> history_records
       (trace (on_game_finish sample_chess sample_str aborted_event sample_window)) = [JStr ''abc'']
   \<and> statistics_updates
       (trace (on_game_finish sample_chess sample_str aborted_event
                 (snd (on_game_aborted sample_chess ''aborted'' sample_window)))) = [''win'']
   \<and> statistics_updates
       (trace (on_game_finish sample_chess sample_str abort_info sample_window)) = []
   \<and> history_records
       (trace (on_game_finish sample_chess sample_str abort_info sample_window)) = []
   \<and> statistics_updates
       (trace (on_game_finish sample_chess sample_str nameless_event sample_window)) = [''loss'']
   \<and> history_records
       (trace (on_game_finish sample_chess sample_str nameless_event sample_window)) = []
   \<and> raised (on_game_finish sample_chess sample_str nameless_event sample_window)
       = Some IntegrityError
   \<and> statistics_updates
       (trace (on_game_finish sample_chess sample_str orphan_event sample_window)) = [''loss'']
   \<and> history_records
       (trace (on_game_finish sample_chess sample_str orphan_event sample_window)) = []
   \<and> raised (on_game_finish sample_chess sample_str orphan_event sample_window)
       = Some AttributeError"
  by code_simp

section \<open>The retry loop\<close>

lemma double_capped:
  fixes d :: real
  assumes "0 < d"
  shows "min (min (d * 2) 30 * 2 ^ k) 30 = min (d * 2 ^ Suc k) 30"
proof -
  define x :: real where "x = 2 ^ k"
  have x1: "1 \<le> x"
    by (simp add: x_def)
  have "0 \<le> d * (x - 1)"
    using assms x1 by simp
  then have dx: "d \<le> d * x"
    by (simp add: algebra_simps)
  have goal: "min (min (d * 2) 30 * x) 30 = min (d * (2 * x)) 30"
  proof (cases "d * 2 \<le> 30")
    case True
    then show ?thesis by (simp add: algebra_simps)
  next
    case False
    then have "min (d * 2) 30 = 30"
      by simp
    moreover have "30 \<le> 30 * x"
      using x1 by simp
    moreover have "30 \<le> d * (2 * x)"
    proof -
      have "d * (2 * x) = 2 * (d * x)"
        by simp
      with False dx show ?thesis
        by linarith
    qed
    ultimately show ?thesis
      by (simp only: min_absorb2)
  qed
  then show ?thesis
    by (simp add: x_def)
qed

lemma sleeps_event_stream_loop:
  assumes "list_all retries attempts" and "0 < d" and "d \<le> 30"
  shows "sleeps (event_stream_loop d True attempts) =
           map (\<lambda>k. min (d * 2 ^ k) 30) [0..<length attempts]"
  using assms
proof (induction attempts arbitrary: d)
  case Nil
  then show ?case by simp
next
  case (Cons a rest)
  have step: "sleeps (event_stream_loop d True (a # rest)) =
      d # sleeps (event_stream_loop (min (d * 2) 30) True rest)"
    using Cons.prems(1)
    by (cases "ending a") (simp_all add: retries_def max_reconnect_delay_def)
  have "sleeps (event_stream_loop (min (d * 2) 30) True rest) =
      map (\<lambda>k. min (min (d * 2) 30 * 2 ^ k) 30) [0..<length rest]"
    using Cons.prems by (intro Cons.IH) simp_all
  also have "\<dots> = map (\<lambda>k. min (d * 2 ^ Suc k) 30) [0..<length rest]"
    using Cons.prems(2) by (simp add: double_capped)
  finally have tl: "sleeps (event_stream_loop (min (d * 2) 30) True rest) =
      map (\<lambda>k. min (d * 2 ^ Suc k) 30) [0..<length rest]" .
  have "map (\<lambda>k. min (d * 2 ^ k) 30) [0..<length (a # rest)] =
      min (d * 2 ^ 0) 30 # map (\<lambda>k. min (d * 2 ^ Suc k) 30) [0..<length rest]"
    by (simp add: upt_conv_Cons map_Suc_upt [symmetric] del: upt_Suc)
  then show ?case
    using step tl Cons.prems(3) by simp
qed

text \<open>
  C8. When the bot is running and each of \<open>n\<close> consecutive connection attempts is a
  failure (the stream ends or raises, no event was delivered, the bot keeps running),
  the delays slept before the reconnects are \<open>min (2 ^ k) 30\<close> for \<open>k = 0, ..., n - 1\<close>:
  1, 2, 4, 8, 16, 30, 30, 30, ... seconds.
\<close>

theorem run_event_stream_backoff:
  assumes "list_all failure attempts"
  shows "sleeps (run_event_stream True attempts) = map (\<lambda>k. min (2 ^ k) 30) [0..<length attempts]"
proof -
  have "list_all retries attempts"
    using assms by (simp add: list_all_iff failure_def)
  then show ?thesis
    using sleeps_event_stream_loop [of attempts 1] by (simp add: run_event_stream_def)
qed

text \<open>The theorem on eight failures in a row: the delays are 1, 2, 4, 8, 16, 30, 30, 30.\<close>

theorem run_event_stream_backoff_witness:
  "list_all failure (replicate 8 failed_attempt)
   \<and> sleeps (run_event_stream True (replicate 8 failed_attempt)) = [1, 2, 4, 8, 16, 30, 30, 30]"
proof -
  have h: "list_all failure (replicate 8 failed_attempt)"
    by code_simp
  have v: "map (\<lambda>k. min (2 ^ k) (30::real)) [0..<length (replicate 8 failed_attempt)]
      = [1, 2, 4, 8, 16, 30, 30, 30]"
    by code_simp
  from run_event_stream_backoff [OF h] h v show ?thesis
    by simp
qed

text \<open>
  C4, as the code has it. The back-off delay is never reset. While the loop keeps
  retrying, the delay slept after the \<open>i\<close>-th reconnect (\<open>i > 0\<close>) is twice the delay
  slept before it, capped at 30 seconds, also when that reconnect succeeded and
  delivered events; it is at least 2 seconds, never 1.
\<close>

theorem run_event_stream_never_resets:
  assumes "list_all retries attempts" and "0 < i" and "i < length attempts"
    and "1 \<le> delivered (attempts ! i)"
  shows "sleeps (run_event_stream True attempts) ! i =
           min (2 * (sleeps (run_event_stream True attempts) ! (i - 1))) 30
    \<and> 2 \<le> sleeps (run_event_stream True attempts) ! i"
proof -
  have all: "sleeps (run_event_stream True attempts) =
      map (\<lambda>k. min (2 ^ k) 30) [0..<length attempts]"
    using sleeps_event_stream_loop [OF assms(1), of 1] by (simp add: run_event_stream_def)
  obtain j where j: "i = Suc j"
    using assms(2) by (cases i) auto
  have at_i: "sleeps (run_event_stream True attempts) ! i = min (2 ^ Suc j) 30"
    using all assms(3) j by simp
  have at_j: "sleeps (run_event_stream True attempts) ! (i - 1) = min (2 ^ j) 30"
    using all assms(3) j by simp
  have "(1::real) \<le> 2 ^ j"
    by simp
  then have two: "(2::real) \<le> 2 ^ Suc j"
    by simp
  have "min (2 * min (2 ^ j) (30::real)) 30 = min (2 ^ Suc j) 30"
    by (simp add: min_def)
  then show ?thesis
    using at_i at_j two by simp
qed

text \<open>
  The theorem on a failure followed by a connection that delivered three events and
  was then closed: the delay slept after that connection is 2 seconds.
\<close>

theorem run_event_stream_never_resets_witness:
  "list_all retries [failed_attempt, served_attempt]
   \<and> (0::nat) < 1 \<and> 1 < length [failed_attempt, served_attempt]
   \<and> 1 \<le> delivered ([failed_attempt, served_attempt] ! 1)
   \<and> sleeps (run_event_stream True [failed_attempt, served_attempt]) ! 1 = 2"
proof -
  have h1: "list_all retries [failed_attempt, served_attempt]"
    by code_simp
  have h2: "(0::nat) < 1"
    by simp
  have h3: "1 < length [failed_attempt, served_attempt]"
    by simp
  have h4: "1 \<le> delivered ([failed_attempt, served_attempt] ! 1)"
    by (simp add: served_attempt_def)
  have v: "sleeps (run_event_stream True [failed_attempt, served_attempt]) ! (1 - 1) = 1"
    by code_simp
  from run_event_stream_never_resets [OF h1 h2 h3 h4] h1 h2 h3 h4 v show ?thesis
    by simp
qed

text \<open>
  C4, as the claim states it, fails. After one failure the loop reconnects; the
  connection delivers three events and is then closed by the remote. The delay slept
  before the next reconnect is 2 seconds, not 1, and after one more failure 4 seconds.
\<close>

theorem run_event_stream_reset_counterexample:
  "1 \<le> delivered served_attempt
   \<and> sleeps (run_event_stream True [failed_attempt, served_attempt, failed_attempt]) = [1, 2, 4]
   \<and> sleeps (run_event_stream True [failed_attempt, served_attempt, failed_attempt]) ! 1 \<noteq> 1
   \<and> sleeps (run_event_stream True [failed_attempt, served_attempt, failed_attempt]) ! 2 \<noteq> 1"
  by code_simp

section \<open>The move scheduler\<close>

lemma maybe_make_move_not_ready:
  "\<not> ready L s \<Longrightarrow>
   posts (maybe_make_move L E state s) = [] \<and> engine_limits (maybe_make_move L E state s) = []"
  by (auto simp: ready_def maybe_make_move_def split: option.splits)

lemma maybe_make_move_ready:
  "ready L s \<Longrightarrow> game_board s = Some b \<Longrightarrow>
   maybe_make_move L E state s = UpdateStatus ''Thinking...'' # think_and_move L E state s b"
  by (auto simp: ready_def maybe_make_move_def split: option.splits)

lemma posts_submit_move:
  "posts (submit_move E move_uci w) =
     (if lichess_client (at_submission E)
      then [move_url (current_game_id (at_submission E)) move_uci] else [])"
  by (auto simp: submit_move_def make_move_def Let_def
      split: http_response.splits option.splits)

lemma sleeps_submit_move:
  "sleeps (submit_move E move_uci w) = (if w > 0 then [w] else [])"
  by (auto simp: submit_move_def make_move_def Let_def
      split: http_response.splits option.splits)

lemma submit_move_before_post:
  "lichess_client (at_submission E) \<Longrightarrow>
   sleeps (takeWhile (\<lambda>a. \<not> is_post a) (submit_move E move_uci w)) = (if w > 0 then [w] else [])"
  by (auto simp: submit_move_def make_move_def Let_def is_post_def
      split: http_response.splits option.splits)

lemma engine_limits_submit_move: "engine_limits (submit_move E move_uci w) = []"
  by (auto simp: submit_move_def make_move_def Let_def
      split: http_response.splits option.splits)

lemma think_and_move_posted:
  assumes "posts (think_and_move L E state s b) \<noteq> []"
  shows "\<exists>m. engine_running E \<and> engine_play E = Inr (Some m) \<and> move_bool L m
    \<and> lichess_client (at_submission E)
    \<and> think_and_move L E state s b =
        EnginePlay (build_limit (Some (time_max L s b)) None
            (if single_node s then Some 1 else None)
            (Some (get_or (gs_wtime state) 60000)) (Some (get_or (gs_btime state) 60000))
            (Some (get_or (gs_winc state) 0)) (Some (get_or (gs_binc state) 0)))
        # DbLog DEBUG (''Engine move: '' @ uci L m)
        # submit_move E (uci L m) (target_move_time L E s b - elapsed E)"
  using assms
  by (auto simp: think_and_move_def get_best_move_def Let_def posts_submit_move
      split: sum.splits option.splits if_splits)

lemma uniform_in_range:
  fixes r a b :: real
  assumes "0 \<le> r" and "r \<le> 1" and "a \<le> b"
  shows "a \<le> uniform r a b \<and> uniform r a b \<le> b"
proof -
  have "0 \<le> (b - a) * r"
    using assms by simp
  moreover have "(b - a) * r \<le> (b - a) * 1"
    using assms by (intro mult_left_mono) simp_all
  ultimately show ?thesis
    by (simp add: uniform_def)
qed

text \<open>
  C6. Whenever the scheduler submits a move: the engine was asked exactly once, with a
  time limit that is set and equals the maximum of the think-time range of the tier of
  the current move number, the opening range up to move 10 and the middle-game range
  from move 11 on; the time the handler asks to be suspended between the engine's
  answer and the submission is \<open>max 0 (target - elapsed)\<close>, where \<open>target\<close> is the
  think time sampled from the tier's range and \<open>elapsed\<close> the time from the start of
  the scheduling to the engine's answer (\<open>asyncio.sleep\<close> suspends for at least the
  time asked); when \<open>elapsed\<close> has reached \<open>target\<close> there is no sleep at all. The
  sampled target lies in the tier's range when the range is not empty.
\<close>

theorem maybe_make_move_throttle:
  assumes "posts (maybe_make_move L E state s) \<noteq> []"
  shows "\<exists>b lo hi target.
      game_board s = Some b
    \<and> lo = (if fullmove_number L b \<le> 10 then opening_time_min s else midgame_time_min s)
    \<and> hi = (if fullmove_number L b \<le> 10 then opening_time_max s else midgame_time_max s)
    \<and> target = lo + (hi - lo) * random_sample E
    \<and> map lim_time (engine_limits (maybe_make_move L E state s)) = [Some hi]
    \<and> throttle (maybe_make_move L E state s)
        = max 0 (target - (engine_done_time E - think_start_time E))
    \<and> (target \<le> engine_done_time E - think_start_time E
        \<longrightarrow> sleeps (maybe_make_move L E state s) = [])
    \<and> (0 \<le> random_sample E \<and> random_sample E \<le> 1 \<and> lo \<le> hi \<longrightarrow> lo \<le> target \<and> target \<le> hi)"
proof -
  have r: "ready L s"
    using assms maybe_make_move_not_ready [of L s E state] by auto
  then obtain b where b: "game_board s = Some b"
    by (auto simp: ready_def split: option.splits)
  define lo where "lo = (if fullmove_number L b \<le> 10 then opening_time_min s else midgame_time_min s)"
  define hi where "hi = (if fullmove_number L b \<le> 10 then opening_time_max s else midgame_time_max s)"
  define target where "target = lo + (hi - lo) * random_sample E"
  have lo: "time_min L s b = lo"
    by (simp add: time_min_def lo_def)
  have hi: "time_max L s b = hi"
    by (simp add: time_max_def hi_def)
  have target: "target_move_time L E s b = target"
    by (simp add: target_move_time_def uniform_def lo hi target_def)
  have el: "elapsed E = engine_done_time E - think_start_time E"
    by (simp add: elapsed_def)
  have run: "maybe_make_move L E state s = UpdateStatus ''Thinking...'' # think_and_move L E state s b"
    using r b by (rule maybe_make_move_ready)
  then have "posts (think_and_move L E state s b) \<noteq> []"
    using assms by simp
  from think_and_move_posted [OF this] obtain m where m: "lichess_client (at_submission E)"
    "think_and_move L E state s b =
        EnginePlay (build_limit (Some (time_max L s b)) None
            (if single_node s then Some 1 else None)
            (Some (get_or (gs_wtime state) 60000)) (Some (get_or (gs_btime state) 60000))
            (Some (get_or (gs_winc state) 0)) (Some (get_or (gs_binc state) 0)))
        # DbLog DEBUG (''Engine move: '' @ uci L m)
        # submit_move E (uci L m) (target_move_time L E s b - elapsed E)"
    by blast
  have lim: "map lim_time (engine_limits (maybe_make_move L E state s)) = [Some hi]"
    by (simp add: run m(2) engine_limits_submit_move build_limit_def hi)
  have p1: "\<not> is_post (EnginePlay l)" for l
    by (simp add: is_post_def)
  have p2: "\<not> is_post (DbLog v t)" for v t
    by (simp add: is_post_def)
  have thr: "throttle (maybe_make_move L E state s)
      = max 0 (target - (engine_done_time E - think_start_time E))"
    by (simp add: run m(2) throttle_def is_engine_play_def p1 p2
        submit_move_before_post [OF m(1)] target el)
  have none: "sleeps (maybe_make_move L E state s) = []"
    if "target \<le> engine_done_time E - think_start_time E"
    using that by (simp add: run m(2) sleeps_submit_move target el)
  have rng: "lo \<le> target \<and> target \<le> hi"
    if "0 \<le> random_sample E \<and> random_sample E \<le> 1 \<and> lo \<le> hi"
    using that uniform_in_range [of "random_sample E" lo hi]
    by (simp add: uniform_def target_def)
  show ?thesis
  proof (rule exI [of _ b], rule exI [of _ lo], rule exI [of _ hi], rule exI [of _ target],
      intro conjI impI)
    show "game_board s = Some b"
      by (rule b)
    show "lo = (if fullmove_number L b \<le> 10 then opening_time_min s else midgame_time_min s)"
      by (rule lo_def)
    show "hi = (if fullmove_number L b \<le> 10 then opening_time_max s else midgame_time_max s)"
      by (rule hi_def)
    show "target = lo + (hi - lo) * random_sample E"
      by (rule target_def)
    show "map lim_time (engine_limits (maybe_make_move L E state s)) = [Some hi]"
      by (rule lim)
    show "throttle (maybe_make_move L E state s)
        = max 0 (target - (engine_done_time E - think_start_time E))"
      by (rule thr)
    show "sleeps (maybe_make_move L E state s) = []"
      if "target \<le> engine_done_time E - think_start_time E"
      using that by (rule none)
    show "lo \<le> target"
      if "0 \<le> random_sample E \<and> random_sample E \<le> 1 \<and> lo \<le> hi"
      using rng [OF that] by simp
    show "target \<le> hi"
      if "0 \<le> random_sample E \<and> random_sample E \<le> 1 \<and> lo \<le> hi"
      using rng [OF that] by simp
  qed
qed

text \<open>
  The theorem on move 11 of the sample game, in an invocation that starts at second 10
  and has the engine's answer at second 12: the middle-game range is 3 to 8 seconds, the
  sample one half gives the target 5.5 seconds, the engine is capped at 8 seconds and
  answers after 2 seconds, and the handler sleeps 3.5 seconds before it submits. On the
  first move, with the opening range of 1 to 3 seconds and the engine's answer after 1
  second, the engine is capped at 3 seconds and the handler sleeps 1 second.
\<close>

theorem maybe_make_move_throttle_witness:
  "posts (maybe_make_move sample_chess midgame_env (game_state_record [] ''started'')
      midgame_window) \<noteq> []
   \<and> fullmove_number sample_chess (start_position\<lparr>fullmoves := 11\<rparr>) = 11
   \<and> map lim_time (engine_limits (maybe_make_move sample_chess midgame_env
        (game_state_record [] ''started'') midgame_window)) = [Some 8]
   \<and> throttle (maybe_make_move sample_chess midgame_env (game_state_record [] ''started'')
        midgame_window) = 7 / 2
   \<and> posts (maybe_make_move sample_chess sample_env (game_state_record [] ''started'')
        sample_window) \<noteq> []
   \<and> fullmove_number sample_chess start_position = 1
   \<and> map lim_time (engine_limits (maybe_make_move sample_chess sample_env
        (game_state_record [] ''started'') sample_window)) = [Some 3]
   \<and> throttle (maybe_make_move sample_chess sample_env (game_state_record [] ''started'')
        sample_window) = 1"
proof -
  have h: "posts (maybe_make_move sample_chess midgame_env (game_state_record [] ''started'')
      midgame_window) \<noteq> []"
    by code_simp
  have h': "posts (maybe_make_move sample_chess sample_env (game_state_record [] ''started'')
      sample_window) \<noteq> []"
    by code_simp
  have b: "game_board midgame_window = Some (start_position\<lparr>fullmoves := 11\<rparr>)"
    by (simp add: midgame_window_def)
  have b': "game_board sample_window = Some start_position"
    by (simp add: sample_window_def)
  have n: "fullmove_number sample_chess (start_position\<lparr>fullmoves := 11\<rparr>) = 11"
    by code_simp
  have n': "fullmove_number sample_chess start_position = 1"
    by code_simp
  have v: "midgame_time_min midgame_window = 3" "midgame_time_max midgame_window = 8"
    "random_sample midgame_env = 1 / 2" "engine_done_time midgame_env = 12"
    "think_start_time midgame_env = 10"
    by (simp_all add: midgame_window_def midgame_env_def sample_window_def sample_env_def)
  have v': "opening_time_min sample_window = 1" "opening_time_max sample_window = 3"
    "random_sample sample_env = 1 / 2" "engine_done_time sample_env = 1"
    "think_start_time sample_env = 0"
    by (simp_all add: sample_window_def sample_env_def)
  from maybe_make_move_throttle [OF h] obtain c lo hi target where mid:
    "game_board midgame_window = Some c"
    "lo = (if fullmove_number sample_chess c \<le> 10 then opening_time_min midgame_window
           else midgame_time_min midgame_window)"
    "hi = (if fullmove_number sample_chess c \<le> 10 then opening_time_max midgame_window
           else midgame_time_max midgame_window)"
    "target = lo + (hi - lo) * random_sample midgame_env"
    "map lim_time (engine_limits (maybe_make_move sample_chess midgame_env
        (game_state_record [] ''started'') midgame_window)) = [Some hi]"
    "throttle (maybe_make_move sample_chess midgame_env (game_state_record [] ''started'')
        midgame_window) = max 0 (target - (engine_done_time midgame_env - think_start_time midgame_env))"
    by (elim exE conjE) (rule that)
  have c: "c = start_position\<lparr>fullmoves := 11\<rparr>"
    using mid(1) b by simp
  have hi: "hi = 8" and lo: "lo = 3"
    using mid(2,3) by (simp_all add: c n v)
  have target: "target = 11 / 2"
    using mid(4) by (simp add: hi lo v)
  from maybe_make_move_throttle [OF h'] obtain c' lo' hi' target' where early:
    "game_board sample_window = Some c'"
    "lo' = (if fullmove_number sample_chess c' \<le> 10 then opening_time_min sample_window
            else midgame_time_min sample_window)"
    "hi' = (if fullmove_number sample_chess c' \<le> 10 then opening_time_max sample_window
            else midgame_time_max sample_window)"
    "target' = lo' + (hi' - lo') * random_sample sample_env"
    "map lim_time (engine_limits (maybe_make_move sample_chess sample_env
        (game_state_record [] ''started'') sample_window)) = [Some hi']"
    "throttle (maybe_make_move sample_chess sample_env (game_state_record [] ''started'')
        sample_window) = max 0 (target' - (engine_done_time sample_env - think_start_time sample_env))"
    by (elim exE conjE) (rule that)
  have c': "c' = start_position"
    using early(1) b' by simp
  have hi': "hi' = 3" and lo': "lo' = 1"
    using early(2,3) by (simp_all add: c' n' v')
  have target': "target' = 2"
    using early(4) by (simp add: hi' lo' v')
  have t1: "throttle (maybe_make_move sample_chess midgame_env (game_state_record [] ''started'')
        midgame_window) = 7 / 2"
    using mid(6) by (simp add: target v)
  have t2: "throttle (maybe_make_move sample_chess sample_env (game_state_record [] ''started'')
        sample_window) = 1"
    using early(6) by (simp add: target' v')
  have l1: "map lim_time (engine_limits (maybe_make_move sample_chess midgame_env
        (game_state_record [] ''started'') midgame_window)) = [Some 8]"
    using mid(5) by (simp add: hi)
  have l2: "map lim_time (engine_limits (maybe_make_move sample_chess sample_env
        (game_state_record [] ''started'') sample_window)) = [Some 3]"
    using early(5) by (simp add: hi')
  show ?thesis
    by (intro conjI) (rule h h' n n' l1 l2 t1 t2)+
qed

text \<open>
  C1, as the code has it. The scheduler tests that the session is live and that it is
  our side to move once, on entry, before it calls the engine: when the test fails
  there, no engine search is started and nothing is submitted. The test is not repeated
  after the engine call and the throttle delay: once it has passed on entry and the
  engine has answered with a move, the move is submitted, to the game id found in the
  window at that moment, whatever the window shows then (as long as the client object
  is still there).
\<close>

theorem maybe_make_move_checks_on_entry:
  "(\<not> ready L s \<longrightarrow>
      posts (maybe_make_move L E state s) = []
      \<and> engine_limits (maybe_make_move L E state s) = [])
   \<and> (ready L s' \<and> engine_running E' \<and> engine_play E' = Inr (Some m) \<and> move_bool L m
        \<and> lichess_client (at_submission E') \<longrightarrow>
      posts (maybe_make_move L E' state' s') =
        [move_url (current_game_id (at_submission E')) (uci L m)])"
proof -
  have first: "posts (maybe_make_move L E state s) = []
      \<and> engine_limits (maybe_make_move L E state s) = []"
    if "\<not> ready L s"
    using that by (rule maybe_make_move_not_ready)
  have second: "posts (maybe_make_move L E' state' s') =
      [move_url (current_game_id (at_submission E')) (uci L m)]"
    if a: "ready L s' \<and> engine_running E' \<and> engine_play E' = Inr (Some m) \<and> move_bool L m
        \<and> lichess_client (at_submission E')"
  proof -
    obtain b where b: "game_board s' = Some b"
      using a by (auto simp: ready_def split: option.splits)
    have "maybe_make_move L E' state' s' =
        UpdateStatus ''Thinking...'' # think_and_move L E' state' s' b"
      using a b by (simp add: maybe_make_move_ready)
    then show ?thesis
      using a by (simp add: think_and_move_def get_best_move_def Let_def posts_submit_move)
  qed
  show ?thesis
    using first second by blast
qed

text \<open>
  The theorem on the window cleared by \<open>gameFinish\<close> (the test fails on entry, nothing
  is submitted) and on the first move of the sample game (the test passes, the engine
  answers \<open>e2e4\<close>, the move is submitted to game \<open>abc\<close>).
\<close>

theorem maybe_make_move_checks_on_entry_witness:
  "\<not> ready sample_chess (at_submission stale_env)
   \<and> posts (maybe_make_move sample_chess sample_env (game_state_record [] ''started'')
        (at_submission stale_env)) = []
   \<and> ready sample_chess sample_window \<and> engine_running sample_env
   \<and> engine_play sample_env = Inr (Some \<lparr>from_square = 12, to_square = 28, promotion = None\<rparr>)
   \<and> move_bool sample_chess \<lparr>from_square = 12, to_square = 28, promotion = None\<rparr>
   \<and> lichess_client (at_submission sample_env)
   \<and> posts (maybe_make_move sample_chess sample_env (game_state_record [] ''started'')
        sample_window)
       = [move_url (current_game_id (at_submission sample_env))
            (uci sample_chess \<lparr>from_square = 12, to_square = 28, promotion = None\<rparr>)]
   \<and> move_url (current_game_id (at_submission sample_env))
        (uci sample_chess \<lparr>from_square = 12, to_square = 28, promotion = None\<rparr>)
       = ''https://lichess.org/api/board/game/abc/move/e2e4''"
proof -
  have h1: "\<not> ready sample_chess (at_submission stale_env)"
    by code_simp
  have h2: "ready sample_chess sample_window"
    by code_simp
  have h3: "engine_running sample_env"
    by code_simp
  have h4: "engine_play sample_env
      = Inr (Some \<lparr>from_square = 12, to_square = 28, promotion = None\<rparr>)"
    by code_simp
  have h5: "move_bool sample_chess \<lparr>from_square = 12, to_square = 28, promotion = None\<rparr>"
    by code_simp
  have h6: "lichess_client (at_submission sample_env)"
    by code_simp
  have v: "move_url (current_game_id (at_submission sample_env))
        (uci sample_chess \<lparr>from_square = 12, to_square = 28, promotion = None\<rparr>)
       = ''https://lichess.org/api/board/game/abc/move/e2e4''"
    by code_simp
  from maybe_make_move_checks_on_entry
    [of sample_chess "at_submission stale_env" sample_env "game_state_record [] ''started''"
        sample_window sample_env "\<lparr>from_square = 12, to_square = 28, promotion = None\<rparr>"
        "game_state_record [] ''started''"]
    h1 h2 h3 h4 h5 h6 v
  show ?thesis
    by blast
qed

text \<open>
  C1, as the claim states it, fails. The scheduler is entered in a live game with our
  side to move; while the engine is searching, the control stream delivers the
  \<open>gameFinish\<close> of the game and \<open>_on_game_finish\<close> clears the game id, the colour and
  the board. At the moment of submission the session has ended and the window is no
  longer ready, yet the engine's move is sent to the remote service, in a request
  addressed to the game id \<open>None\<close>.
\<close>

theorem maybe_make_move_stale_counterexample:
  "ready sample_chess sample_window
   \<and> current_game_id (at_submission stale_env) = None
   \<and> game_board (at_submission stale_env) = None
   \<and> \<not> ready sample_chess (at_submission stale_env)
   \<and> posts (maybe_make_move sample_chess stale_env (game_state_record [] ''started'')
        sample_window)
       = [''https://lichess.org/api/board/game/None/move/e2e4'']"
  by code_simp

section \<open>The NDJSON stream\<close>

lemma complete_lines_no_newline: "newline \<notin> set b \<Longrightarrow> complete_lines cur b = []"
  by (induction b arbitrary: cur) auto

lemma unfinished_line_no_newline: "newline \<notin> set b \<Longrightarrow> unfinished_line cur b = rev cur @ b"
  by (induction b arbitrary: cur) auto

lemma complete_lines_first:
  "newline \<in> set b \<Longrightarrow>
   complete_lines cur b =
     (rev cur @ takeWhile (\<lambda>c. c \<noteq> newline) b)
     # complete_lines [] (tl (dropWhile (\<lambda>c. c \<noteq> newline) b))"
  by (induction b arbitrary: cur) auto

lemma unfinished_line_first:
  "newline \<in> set b \<Longrightarrow>
   unfinished_line cur b = unfinished_line [] (tl (dropWhile (\<lambda>c. c \<noteq> newline) b))"
  by (induction b arbitrary: cur) auto

lemma complete_lines_append:
  "complete_lines cur (xs @ ys) =
     complete_lines cur xs @ complete_lines (rev (unfinished_line cur xs)) ys"
  by (induction xs arbitrary: cur) auto

lemma unfinished_line_append:
  "unfinished_line cur (xs @ ys) = unfinished_line (rev (unfinished_line cur xs)) ys"
  by (induction xs arbitrary: cur) auto

lemma unfinished_line_newline_free:
  "newline \<notin> set cur \<Longrightarrow> newline \<notin> set (unfinished_line cur xs)"
  by (induction xs arbitrary: cur) auto

lemma map_filter_append: "List.map_filter f (xs @ ys) = List.map_filter f xs @ List.map_filter f ys"
  by (simp add: List.map_filter_def)

lemma map_filter_Cons:
  "List.map_filter f (x # xs) = (case f x of None \<Rightarrow> [] | Some y \<Rightarrow> [y]) @ List.map_filter f xs"
  by (simp add: List.map_filter_def split: option.splits)

lemma process_buffer_lines:
  "list_all (plain C) (complete_lines [] buffer) \<Longrightarrow>
   process_buffer C buffer out =
     (out @ List.map_filter (record_of C) (complete_lines [] buffer),
      unfinished_line [] buffer, None)"
proof (induction C buffer out rule: process_buffer.induct)
  case (1 C buffer out)
  show ?case
  proof (cases "newline \<in> set buffer")
    case False
    then show ?thesis
      by (subst process_buffer.simps)
        (simp add: complete_lines_no_newline unfinished_line_no_newline List.map_filter_def)
  next
    case True
    define line where "line = takeWhile (\<lambda>c. c \<noteq> newline) buffer"
    define rest where "rest = tl (dropWhile (\<lambda>c. c \<noteq> newline) buffer)"
    have cl: "complete_lines [] buffer = line # complete_lines [] rest"
      using True by (simp add: complete_lines_first line_def rest_def)
    have ul: "unfinished_line [] buffer = unfinished_line [] rest"
      using True by (simp add: unfinished_line_first rest_def)
    have pl: "plain C line" and pl_rest: "list_all (plain C) (complete_lines [] rest)"
      using "1.prems" cl by simp_all
    then obtain decoded where decoded: "decode_utf8 C line = Some decoded"
      by (auto simp: plain_def split: option.splits)
    show ?thesis
    proof (cases "strip decoded \<noteq> []")
      case False
      have a: "process_buffer C buffer out = process_buffer C rest out"
        using True decoded False
        by (subst process_buffer.simps) (simp add: line_def rest_def Let_def)
      have b: "process_buffer C rest out =
          (out @ List.map_filter (record_of C) (complete_lines [] rest),
           unfinished_line [] rest, None)"
        using "1.IH"(3) [OF True line_def rest_def decoded False pl_rest] by simp
      have c: "record_of C line = None"
        using decoded False by (simp add: record_of_def)
      show ?thesis
        by (simp add: a b c cl ul map_filter_Cons)
    next
      case nonblank: True
      show ?thesis
      proof (cases "json_loads C (strip decoded)")
        case (Inl e)
        have e: "e = JSONDecodeError"
          using pl decoded nonblank Inl by (simp add: plain_def)
        have a: "process_buffer C buffer out = process_buffer C rest out"
          using True decoded nonblank Inl e
          by (subst process_buffer.simps) (simp add: line_def rest_def Let_def)
        have b: "process_buffer C rest out =
            (out @ List.map_filter (record_of C) (complete_lines [] rest),
             unfinished_line [] rest, None)"
          using "1.IH"(1) [OF True line_def rest_def decoded nonblank Inl e pl_rest] by simp
        have c: "record_of C line = None"
          using decoded nonblank Inl by (simp add: record_of_def)
        show ?thesis
          by (simp add: a b c cl ul map_filter_Cons)
      next
        case (Inr data)
        have a: "process_buffer C buffer out = process_buffer C rest (out @ [data])"
          using True decoded nonblank Inr
          by (subst process_buffer.simps) (simp add: line_def rest_def Let_def)
        have b: "process_buffer C rest (out @ [data]) =
            ((out @ [data]) @ List.map_filter (record_of C) (complete_lines [] rest),
             unfinished_line [] rest, None)"
          using "1.IH"(2) [OF True line_def rest_def decoded nonblank Inr pl_rest] by simp
        have c: "record_of C line = Some data"
          using decoded nonblank Inr by (simp add: record_of_def)
        show ?thesis
          by (simp add: a b c cl ul map_filter_Cons)
      qed
    qed
  qed
qed

lemma read_loop_yields:
  assumes "newline \<notin> set buffer"
    and "list_all (plain C)
           (complete_lines (rev buffer) (concat (chunks_of (takeWhile is_data reads))))"
  shows "yielded (read_loop C None reads buffer last_stop_check now out) =
           out @ List.map_filter (record_of C)
             (complete_lines (rev buffer) (concat (chunks_of (takeWhile is_data reads))))"
  using assms
proof (induction reads arbitrary: buffer last_stop_check now out)
  case Nil
  then show ?case
    by (simp add: stopping_def chunks_of_def List.map_filter_def)
next
  case (Cons e rest)
  show ?case
  proof (cases "is_data e")
    case False
    then show ?thesis
      by (cases "result e")
        (simp_all add: stopping_def is_data_def chunks_of_def List.map_filter_def)
  next
    case True
    then obtain chunk where chunk: "result e = Chunk chunk" "chunk \<noteq> []"
      by (auto simp: is_data_def split: read_result.splits)
    define later where "later = concat (chunks_of (takeWhile is_data rest))"
    have all: "concat (chunks_of (takeWhile is_data (e # rest))) = chunk @ later"
      using True chunk by (simp add: chunks_of_def later_def)
    have here: "complete_lines [] (buffer @ chunk) = complete_lines (rev buffer) chunk"
      using Cons.prems(1)
      by (simp add: complete_lines_append complete_lines_no_newline unfinished_line_no_newline)
    have left: "unfinished_line [] (buffer @ chunk) = unfinished_line (rev buffer) chunk"
      using Cons.prems(1)
      by (simp add: unfinished_line_append unfinished_line_no_newline)
    have lines: "complete_lines (rev buffer) (chunk @ later) =
        complete_lines (rev buffer) chunk
        @ complete_lines (rev (unfinished_line (rev buffer) chunk)) later"
      by (rule complete_lines_append)
    have whole: "list_all (plain C) (complete_lines (rev buffer) (chunk @ later))"
      using Cons.prems(2) by (simp only: all)
    have pl_here: "list_all (plain C) (complete_lines [] (buffer @ chunk))"
      and pl_later: "list_all (plain C)
            (complete_lines (rev (unfinished_line (rev buffer) chunk)) later)"
      using whole by (simp_all add: lines here)
    have pb: "process_buffer C (buffer @ chunk) out =
        (out @ List.map_filter (record_of C) (complete_lines (rev buffer) chunk),
         unfinished_line (rev buffer) chunk, None)"
      using process_buffer_lines [OF pl_here, of out] by (simp add: here left)
    have free: "newline \<notin> set (unfinished_line (rev buffer) chunk)"
      using Cons.prems(1) by (intro unfinished_line_newline_free) simp
    have ih: "yielded (read_loop C None rest (unfinished_line (rev buffer) chunk) c n
          (out @ List.map_filter (record_of C) (complete_lines (rev buffer) chunk))) =
        (out @ List.map_filter (record_of C) (complete_lines (rev buffer) chunk))
        @ List.map_filter (record_of C)
            (complete_lines (rev (unfinished_line (rev buffer) chunk)) later)" for c n
      using Cons.IH [OF free] pl_later by (simp add: later_def)
    show ?thesis
      by (simp add: chunk pb ih stopping_def all lines map_filter_append Let_def
          del: takeWhile.simps concat.simps)
  qed
qed

text \<open>
  The stream on plain lines. With no stop requested and status 200, for every sequence
  of reads whose complete lines are plain, the records the generator yields are, in
  arrival order, exactly the records of the complete lines of the bytes received up to
  the first read that is not data (end of stream, client error or cancellation),
  whatever the boundaries of the chunks: keep-alive lines and lines that are not JSON
  are passed over and the loop goes on to the next line.
\<close>

lemma stream_ndjson_plain_lines:
  assumes "list_all (plain C)
             (complete_lines [] (concat (chunks_of (takeWhile is_data reads))))"
  shows "yielded (stream_ndjson C None 200 opened_at reads) =
           List.map_filter (record_of C)
             (complete_lines [] (concat (chunks_of (takeWhile is_data reads))))"
proof -
  have "yielded (read_loop C None reads [] opened_at opened_at []) =
      [] @ List.map_filter (record_of C)
        (complete_lines (rev []) (concat (chunks_of (takeWhile is_data reads))))"
    using assms by (intro read_loop_yields) simp_all
  then show ?thesis
    by (simp add: stream_ndjson_def)
qed

text \<open>
  A line that is not valid UTF-8, or on which \<open>json.loads\<close> raises another exception
  than \<open>JSONDecodeError\<close>, is not passed over: the exception leaves the loop at that
  line, with the rest of the buffer unread.
\<close>

lemma process_buffer_raises:
  assumes "newline \<notin> set line"
  shows "(decode_utf8 C line = None \<longrightarrow>
            process_buffer C (line @ newline # later) out = (out, later, Some UnicodeDecodeError))
    \<and> (decode_utf8 C line = Some decoded \<and> strip decoded \<noteq> []
        \<and> json_loads C (strip decoded) = Inl e \<and> e \<noteq> JSONDecodeError \<longrightarrow>
            process_buffer C (line @ newline # later) out = (out, later, Some e))"
proof -
  have line: "takeWhile (\<lambda>c. c \<noteq> newline) (line @ newline # later) = line"
    using assms by (induction line) auto
  have rest: "tl (dropWhile (\<lambda>c. c \<noteq> newline) (line @ newline # later)) = later"
    using assms by (induction line) auto
  show ?thesis
    by (subst process_buffer.simps, subst process_buffer.simps) (simp add: line rest Let_def)
qed

text \<open>
  C9 on the code. A stream carries the record \<open>{a}\<close>, a line that is not valid UTF-8
  (the single byte \<open>0xFF\<close>) and the record \<open>{b}\<close>, and then ends. The generator
  yields \<open>{a}\<close> and is then left by \<open>UnicodeDecodeError\<close>, raised by \<open>line.decode\<close>
  before the \<open>try\<close> block is entered: the garbled line is not dropped, the stream is
  terminated by an exception, and the record \<open>{b}\<close>, which decodes, is never yielded.
  The same stream without the garbled line yields both records and ends normally, and a
  line that is not JSON between the records is dropped.
\<close>

theorem stream_ndjson_raises_on_undecodable_line:
  "stream_ndjson sample_codec None 200 0 garbled_reads
     = \<lparr>yielded = [''{a}''], left_by = ExceptionRaised UnicodeDecodeError, left_at = 1\<rparr>
   \<and> stream_ndjson sample_codec None 200 0 clean_reads
     = \<lparr>yielded = [''{a}'', ''{b}''], left_by = StreamEnded, left_at = 2\<rparr>
   \<and> stream_ndjson sample_codec None 200 0 sample_reads
     = \<lparr>yielded = [''{a}'', ''{b}'', ''{c}''], left_by = StreamEnded, left_at = 3\<rparr>"
  by code_simp

section \<open>Stopping the streams\<close>








section \<open>Sequences of gameState records\<close>

text \<open>
  Handling a non-empty sequence of \<open>gameState\<close> records, none of them with status
  \<open>aborted\<close> or \<open>noStart\<close>, leaves as the game board the initial position with the
  accepted moves of the last record replayed.
\<close>

lemma on_game_states_last:
  assumes "evs \<noteq> []"
    and "list_all (\<lambda>x. get_or (gs_status (snd x)) ''started'' \<notin> set [''aborted'', ''noStart'']) evs"
  shows "game_board (on_game_states L evs s) =
           Some (replay L (new_board L)
             (accepted_moves L (new_board L) (split (get_or (gs_moves (snd (last evs))) []))))"
  using assms
proof (induction evs arbitrary: s)
  case Nil
  then show ?case by simp
next
  case (Cons x rest)
  have ok: "get_or (gs_status (snd x)) ''started'' \<notin> set [''aborted'', ''noStart'']"
    using Cons.prems(2) by simp
  show ?case
  proof (cases rest)
    case Nil
    then show ?thesis
      using snd_on_game_state [OF ok, of L "fst x" s]
      by (simp add: get_live_board_set_position)
  next
    case (Cons y rest')
    then have "rest \<noteq> []"
      by simp
    moreover have "list_all (\<lambda>x. get_or (gs_status (snd x)) ''started''
        \<notin> set [''aborted'', ''noStart'']) rest"
      using Cons.prems(2) by simp
    ultimately show ?thesis
      using Cons.IH [of "snd (on_game_state L (fst x) (snd x) s)"] Cons by simp
  qed
qed

end
